theory Spec2Isabelle
  imports Complex_Main
begin

section \<open>The memory game of \<open>src/js/script.js\<close>\<close>

text \<open>
  The script has three classes: \<open>MemoryButton\<close> (one numbered button), \<open>UIHandler\<close>
  (the number field, the Go button and the status line) and \<open>GameEngine\<close> (the round:
  generation, the timed scramble chain, click arbitration). The embedding below follows
  the script function by function. Mutation of \<open>this\<close> is explicit state passing on one
  record, \<open>setTimeout\<close> is a queue of pending callbacks in that record, and
  \<open>Math.random()\<close> is an oracle \<open>rand\<close>: the \<open>k\<close>-th call of the run returns \<open>rand k\<close>.
\<close>

subsection \<open>Numbers as text\<close>

text \<open>
  \<open>Number.prototype.toString(radix)\<close> on an integer, used by the template literals
  (\<open>`btn-${i}`\<close>, \<open>`${x}px`\<close>), by the assignment of a number to \<open>textContent\<close> and by
  \<open>toString(16)\<close> for the colour.
\<close>

definition digitChar :: "nat \<Rightarrow> char" where
  "digitChar d = (''0123456789abcdefghijklmnopqrstuvwxyz'' ! d)"

function digitsOf :: "nat \<Rightarrow> nat \<Rightarrow> string" where
  "digitsOf radix k =
     (if radix < 2 \<or> k < radix then [digitChar k]
      else digitsOf radix (k div radix) @ [digitChar (k mod radix)])"
  by pat_completeness auto
termination
  by (relation "measure (\<lambda>(radix, k). k)") auto

definition toString :: "nat \<Rightarrow> int \<Rightarrow> string" where
  "toString radix i =
     (if i < 0 then CHR ''-'' # digitsOf radix (nat (- i)) else digitsOf radix (nat i))"

subsection \<open>\<open>parseInt\<close>\<close>

text \<open>
  \<open>parseInt(string)\<close> with no radix, after ECMA-262: leading white space is dropped,
  one sign is read, a prefix \<open>0x\<close> or \<open>0X\<close> selects radix 16 (radix 10 otherwise), and
  the longest prefix of digits of that radix is the number; with no digit the result
  is \<open>NaN\<close>, here \<open>None\<close>. Strings are sequences of 8-bit characters, so the white space
  is the ASCII part of \<open>StrWhiteSpaceChar\<close>. The result is the mathematical integer:
  the script only compares it with 3 and 7, where the rounding of a long digit string
  to a double makes no difference.
\<close>

definition isStrWhiteSpaceChar :: "char \<Rightarrow> bool" where
  "isStrWhiteSpaceChar c \<longleftrightarrow> c \<in> set [CHR 0x09, CHR 0x0A, CHR 0x0B, CHR 0x0C, CHR 0x0D, CHR 0x20]"

definition digitValue :: "char \<Rightarrow> nat option" where
  "digitValue c =
     (let k = of_char c :: nat in
      if 48 \<le> k \<and> k \<le> 57 then Some (k - 48)
      else if 97 \<le> k \<and> k \<le> 122 then Some (k - 87)
      else if 65 \<le> k \<and> k \<le> 90 then Some (k - 55)
      else None)"

definition isRadixDigit :: "nat \<Rightarrow> char \<Rightarrow> bool" where
  "isRadixDigit R c = (case digitValue c of None \<Rightarrow> False | Some d \<Rightarrow> d < R)"

definition mathInt :: "nat \<Rightarrow> string \<Rightarrow> int" where
  "mathInt R Z = foldl (\<lambda>acc c. acc * int R + int (the (digitValue c))) 0 Z"

definition parseInt :: "string \<Rightarrow> int option" where
  "parseInt inputString =
     (let S = dropWhile isStrWhiteSpaceChar inputString;
          sign = (if S \<noteq> [] \<and> hd S = CHR ''-'' then - 1 else 1 :: int);
          S1 = (if S \<noteq> [] \<and> (hd S = CHR ''+'' \<or> hd S = CHR ''-'') then tl S else S);
          hex = (2 \<le> length S1 \<and> (take 2 S1 = ''0x'' \<or> take 2 S1 = ''0X''));
          R = (if hex then 16 else 10 :: nat);
          S2 = (if hex then drop 2 S1 else S1);
          Z = takeWhile (isRadixDigit R) S2
      in if Z = [] then None else Some (sign * mathInt R Z))"

subsection \<open>The message table\<close>

text \<open>
  The script imports \<open>MESSAGES\<close> from \<open>../lang/messages/en/user.js\<close>, a table of
  user-facing strings that is not part of the sources at hand. Its five entries are
  taken as a parameter \<open>M\<close> of every function that reads one.
\<close>

record messages =
  inputLabel :: string
  goButton :: string
  invalidInput :: string
  excellentMemory :: string
  wrongOrder :: string

subsection \<open>\<open>MemoryButton\<close>\<close>

text \<open>
  A button object together with the DOM element it owns. The only click handler the
  script ever installs is the closure \<open>() => callback(this)\<close> of \<open>enableClick\<close>, whose
  callback is always \<open>(clickedBtn) => this.handleButtonClick(clickedBtn)\<close>; \<open>onclick\<close> is
  either that handler or \<open>null\<close> (\<open>None\<close>), which is also what a fresh element has.
\<close>

datatype handler = HandleButtonClick

record MemoryButton =
  btn_id :: string
  color :: string
  order :: int
  className :: string
  backgroundColor :: string
  textContent :: string
  onclick :: "handler option"
  style_position :: string
  style_display :: string
  style_marginRight :: string
  style_left :: string
  style_top :: string

definition createHTMLElement :: "string \<Rightarrow> string \<Rightarrow> int \<Rightarrow> MemoryButton" where
  "createHTMLElement ident col originalOrder =
     \<lparr> btn_id = ident, color = col, order = originalOrder,
       className = ''memory-button'', backgroundColor = col,
       textContent = toString 10 originalOrder, onclick = None,
       style_position = [], style_display = [], style_marginRight = [],
       style_left = [], style_top = [] \<rparr>"

definition setPosition :: "int \<Rightarrow> int \<Rightarrow> MemoryButton \<Rightarrow> MemoryButton" where
  "setPosition x y b =
     b\<lparr> style_left := toString 10 x @ ''px'', style_top := toString 10 y @ ''px'' \<rparr>"

definition showNumber :: "bool \<Rightarrow> MemoryButton \<Rightarrow> MemoryButton" where
  "showNumber shw b = b\<lparr> textContent := (if shw then toString 10 (order b) else []) \<rparr>"

definition enableClick :: "handler \<Rightarrow> MemoryButton \<Rightarrow> MemoryButton" where
  "enableClick callback b = b\<lparr> onclick := Some callback \<rparr>"

definition disableClick :: "MemoryButton \<Rightarrow> MemoryButton" where
  "disableClick b = b\<lparr> onclick := None \<rparr>"

subsection \<open>The state of the page\<close>

text \<open>
  One record holds what the three objects and the browser keep between two events:
  the fields of the engine, the text of the status line and of the number field, the
  size of the window, the clock with the callbacks that \<open>setTimeout\<close> has registered and
  that have not run yet, and the number of \<open>Math.random()\<close> calls made so far.
  \<open>statusLog\<close> is the history of the arguments of \<open>displayStatus\<close>, oldest first; the
  script does not keep it, it is there to state what was ever displayed.

  The children of \<open>gameArea\<close> are exactly the elements of \<open>this.buttons\<close>: \<open>resetGame\<close>
  empties both and \<open>generateButtons\<close> appends to both. The list \<open>buttons\<close> stands for
  both, and a pointer click addresses a button by its index in it.

  A pending callback is one of the two arrow functions passed to \<open>setTimeout\<close>; both
  are a call \<open>this.scrambleSequence(n, r)\<close> with the values captured.
\<close>

datatype callback = ScrambleSequence int int

record GameEngine =
  buttons :: "MemoryButton list"
  expectedOrder :: int
  isScrambling :: bool
  messageDisplay :: string
  statusLog :: "string list"
  input_value :: string
  innerWidth :: int
  innerHeight :: int
  now :: nat
  timers :: "(nat \<times> callback) list"
  randomCalls :: nat

definition setTimeout :: "callback \<Rightarrow> int \<Rightarrow> GameEngine \<Rightarrow> GameEngine" where
  "setTimeout cb delay s = s\<lparr> timers := timers s @ [(now s + nat delay, cb)] \<rparr>"

subsection \<open>\<open>UIHandler\<close>\<close>

definition displayStatus :: "string \<Rightarrow> GameEngine \<Rightarrow> GameEngine" where
  "displayStatus msg s = s\<lparr> messageDisplay := msg, statusLog := statusLog s @ [msg] \<rparr>"

text \<open>
  The click handler of the Go button, installed by \<open>init(callback)\<close>. A comparison
  with \<open>NaN\<close> is false, so a failed parse takes the \<open>else\<close> branch.
\<close>

definition goBtn_onclick ::
  "messages \<Rightarrow> (int \<Rightarrow> GameEngine \<Rightarrow> GameEngine) \<Rightarrow> GameEngine \<Rightarrow> GameEngine" where
  "goBtn_onclick M callback s =
     (case parseInt (input_value s) of
        Some val \<Rightarrow>
          if val \<ge> 3 \<and> val \<le> 7 then callback val (displayStatus [] s)
          else displayStatus (invalidInput M) s
      | None \<Rightarrow> displayStatus (invalidInput M) s)"

subsection \<open>\<open>GameEngine\<close>\<close>

text \<open>The state the constructor leaves, in a window of the given size.\<close>

definition GameEngine_new :: "int \<Rightarrow> int \<Rightarrow> GameEngine" where
  "GameEngine_new w h =
     \<lparr> buttons = [], expectedOrder = 1, isScrambling = False,
       messageDisplay = [], statusLog = [], input_value = [],
       innerWidth = w, innerHeight = h, now = 0, timers = [], randomCalls = 0 \<rparr>"

definition resetGame :: "GameEngine \<Rightarrow> GameEngine" where
  "resetGame s = s\<lparr> buttons := [], expectedOrder := 1, isScrambling := False \<rparr>"

text \<open>One iteration of the loop of \<open>generateButtons\<close>, then the loop from \<open>i\<close> to \<open>n\<close>.\<close>

definition generateButton :: "(nat \<Rightarrow> real) \<Rightarrow> int \<Rightarrow> GameEngine \<Rightarrow> GameEngine" where
  "generateButton rand i s =
     (let randomColor = CHR ''#'' # toString 16 \<lfloor>rand (randomCalls s) * 16777215\<rfloor>;
          btn = createHTMLElement (''btn-'' @ toString 10 i) randomColor i;
          btn = btn\<lparr> style_position := ''relative'', style_display := ''inline-flex'',
                     style_marginRight := ''5px'' \<rparr>
      in s\<lparr> buttons := buttons s @ [btn], randomCalls := Suc (randomCalls s) \<rparr>)"

function generateButtons_from :: "(nat \<Rightarrow> real) \<Rightarrow> int \<Rightarrow> int \<Rightarrow> GameEngine \<Rightarrow> GameEngine" where
  "generateButtons_from rand i n s =
     (if i \<le> n then generateButtons_from rand (i + 1) n (generateButton rand i s) else s)"
  by pat_completeness auto
termination
  by (relation "measure (\<lambda>(rand, i, n, s). nat (n + 1 - i))") auto

definition generateButtons :: "(nat \<Rightarrow> real) \<Rightarrow> int \<Rightarrow> GameEngine \<Rightarrow> GameEngine" where
  "generateButtons rand n s = generateButtons_from rand 1 n s"

definition getRandomPosition :: "(nat \<Rightarrow> real) \<Rightarrow> GameEngine \<Rightarrow> (int \<times> int) \<times> GameEngine" where
  "getRandomPosition rand s =
     (let btnWidth = 160; btnHeight = 80;
          maxX = innerWidth s - btnWidth;
          maxY = innerHeight s - btnHeight;
          randomX = max 0 \<lfloor>rand (randomCalls s) * real_of_int maxX\<rfloor>;
          randomY = max 0 \<lfloor>rand (randomCalls s + 1) * real_of_int maxY\<rfloor>
      in ((randomX, randomY), s\<lparr> randomCalls := randomCalls s + 2 \<rparr>))"

definition prepareForUser :: "GameEngine \<Rightarrow> GameEngine" where
  "prepareForUser s =
     s\<lparr> isScrambling := False,
        buttons := map (\<lambda>btn. enableClick HandleButtonClick (showNumber False btn)) (buttons s) \<rparr>"

text \<open>
  The body of the \<open>forEach\<close> of \<open>scrambleSequence\<close> for the button at index \<open>i\<close>, and
  the part of \<open>scrambleSequence\<close> before its \<open>setTimeout\<close>: one relocation of every button.
\<close>

definition scrambleButton :: "(nat \<Rightarrow> real) \<Rightarrow> nat \<Rightarrow> GameEngine \<Rightarrow> GameEngine" where
  "scrambleButton rand i s =
     (let (pos, s1) = getRandomPosition rand s;
          btn = (buttons s1 ! i)\<lparr> style_position := ''absolute'' \<rparr>
      in s1\<lparr> buttons := (buttons s1)[i := setPosition (fst pos) (snd pos) btn] \<rparr>)"

definition scramblePass :: "(nat \<Rightarrow> real) \<Rightarrow> GameEngine \<Rightarrow> GameEngine" where
  "scramblePass rand s =
     fold (scrambleButton rand) [0..<length (buttons s)] (s\<lparr> isScrambling := True \<rparr>)"

definition scrambleSequence :: "(nat \<Rightarrow> real) \<Rightarrow> int \<Rightarrow> int \<Rightarrow> GameEngine \<Rightarrow> GameEngine" where
  "scrambleSequence rand n remaining s =
     (if remaining \<le> 0 then prepareForUser s
      else setTimeout (ScrambleSequence n (remaining - 1)) 2000 (scramblePass rand s))"

definition startGame :: "(nat \<Rightarrow> real) \<Rightarrow> int \<Rightarrow> GameEngine \<Rightarrow> GameEngine" where
  "startGame rand n s =
     setTimeout (ScrambleSequence n n) (n * 1000) (generateButtons rand n (resetGame s))"

definition revealAll :: "GameEngine \<Rightarrow> GameEngine" where
  "revealAll s = s\<lparr> buttons := map (\<lambda>btn. disableClick (showNumber True btn)) (buttons s) \<rparr>"

text \<open>\<open>handleButtonClick(btn)\<close>, with \<open>btn\<close> the button at index \<open>i\<close> of \<open>this.buttons\<close>.\<close>

definition handleButtonClick :: "messages \<Rightarrow> nat \<Rightarrow> GameEngine \<Rightarrow> GameEngine" where
  "handleButtonClick M i s =
     (if isScrambling s then s
      else if order (buttons s ! i) = expectedOrder s then
        (let s1 = s\<lparr> buttons := (buttons s)[i := disableClick (showNumber True (buttons s ! i))] \<rparr>;
             s2 = (if expectedOrder s1 = int (length (buttons s1))
                   then displayStatus (excellentMemory M) s1 else s1)
         in s2\<lparr> expectedOrder := expectedOrder s2 + 1 \<rparr>)
      else revealAll (displayStatus (wrongOrder M) s))"

subsection \<open>Events\<close>

text \<open>
  A pointer click on the button at index \<open>i\<close>: the browser calls the element's
  \<open>onclick\<close> if there is one, and does nothing otherwise (also when no such button is
  on the page).
\<close>

definition click :: "messages \<Rightarrow> nat \<Rightarrow> GameEngine \<Rightarrow> GameEngine" where
  "click M i s =
     (if i < length (buttons s) then
        (case onclick (buttons s ! i) of
           None \<Rightarrow> s
         | Some HandleButtonClick \<Rightarrow> handleButtonClick M i s)
      else s)"

text \<open>
  The timer that runs next is the one with the earliest due time, the one registered
  first among equals. Running it takes it off the queue, moves the clock to its due
  time and calls the callback.
\<close>

fun earliest :: "(nat \<times> callback) list \<Rightarrow> nat option" where
  "earliest [] = None"
| "earliest (t # ts) =
     (case earliest ts of
        None \<Rightarrow> Some 0
      | Some j \<Rightarrow> if fst t \<le> fst (ts ! j) then Some 0 else Some (Suc j))"

fun runCallback :: "(nat \<Rightarrow> real) \<Rightarrow> callback \<Rightarrow> GameEngine \<Rightarrow> GameEngine" where
  "runCallback rand (ScrambleSequence n r) s = scrambleSequence rand n r s"

definition fire :: "(nat \<Rightarrow> real) \<Rightarrow> nat \<Rightarrow> GameEngine \<Rightarrow> GameEngine" where
  "fire rand j s =
     runCallback rand (snd (timers s ! j))
       (s\<lparr> timers := take j (timers s) @ drop (Suc j) (timers s),
           now := max (now s) (fst (timers s ! j)) \<rparr>)"

definition tick :: "(nat \<Rightarrow> real) \<Rightarrow> GameEngine \<Rightarrow> GameEngine" where
  "tick rand s = (case earliest (timers s) of None \<Rightarrow> s | Some j \<Rightarrow> fire rand j s)"

text \<open>
  The events of one round: a pointer click on a button, or the next timer running.
  (Activating the Go button with a valid number starts another round.)
\<close>

datatype event = Click nat | TimerFires

fun step :: "messages \<Rightarrow> (nat \<Rightarrow> real) \<Rightarrow> event \<Rightarrow> GameEngine \<Rightarrow> GameEngine" where
  "step M rand (Click i) s = click M i s"
| "step M rand TimerFires s = tick rand s"

text \<open>
  The work a queue of callbacks still stands for: a pending call
  \<open>scrambleSequence(n, r)\<close> runs once and leaves at most a call with \<open>r - 1\<close> behind.
  It is the measure on which running the timers to the end is well-founded.
\<close>

fun pendingWork :: "(nat \<times> callback) list \<Rightarrow> nat" where
  "pendingWork [] = 0"
| "pendingWork ((t, ScrambleSequence n r) # ts) = Suc (nat r) + pendingWork ts"

text \<open>
  Running the pending timers until none is left: what the event loop does when no
  other event arrives. (That it ends is shown below, with \<open>pendingWork\<close> as the measure.)
\<close>

function drain :: "(nat \<Rightarrow> real) \<Rightarrow> GameEngine \<Rightarrow> GameEngine" where
  "drain rand s = (if timers s = [] then s else drain rand (tick rand s))"
  by pat_completeness auto

definition runEvents :: "messages \<Rightarrow> (nat \<Rightarrow> real) \<Rightarrow> event list \<Rightarrow> GameEngine \<Rightarrow> GameEngine" where
  "runEvents M rand evs s = fold (step M rand) evs s"

subsection \<open>States and runs the properties speak about\<close>

text \<open>
  The buttons of a round are numbered \<open>1..n\<close> in the order of the list.
\<close>

definition numbered :: "GameEngine \<Rightarrow> bool" where
  "numbered s \<longleftrightarrow> map order (buttons s) = [1..int (length (buttons s))]"

text \<open>
  A round is awaiting input when no scramble is in progress, a button is still to be
  clicked, every button below \<open>expectedOrder\<close> shows its number and has no handler, and
  every other button shows nothing and has the handler.
\<close>

definition awaitingInput :: "GameEngine \<Rightarrow> bool" where
  "awaitingInput s \<longleftrightarrow>
     \<not> isScrambling s \<and> numbered s \<and>
     1 \<le> expectedOrder s \<and> expectedOrder s \<le> int (length (buttons s)) \<and>
     list_all (\<lambda>btn. if order btn < expectedOrder s
                      then textContent btn = toString 10 (order btn) \<and> onclick btn = None
                      else textContent btn = [] \<and> onclick btn = Some HandleButtonClick)
       (buttons s)"

text \<open>
  The state of a numbered round in which exactly the first \<open>k\<close> buttons have been clicked
  correctly: they show their number and have no handler, the others show nothing and
  have the handler, and the button numbered \<open>k + 1\<close> is expected.
\<close>

definition progress :: "nat \<Rightarrow> GameEngine \<Rightarrow> bool" where
  "progress k s \<longleftrightarrow>
     \<not> isScrambling s \<and> numbered s \<and> expectedOrder s = int k + 1 \<and>
     (\<forall>j < length (buttons s).
        textContent (buttons s ! j) = (if j < k then toString 10 (int j + 1) else []) \<and>
        onclick (buttons s ! j) = (if j < k then None else Some HandleButtonClick))"

text \<open>
  What every event of a round keeps true: the buttons are numbered and \<open>expectedOrder\<close>
  lies between 1 and one more than their number.
\<close>

definition roundInvariant :: "GameEngine \<Rightarrow> bool" where
  "roundInvariant s \<longleftrightarrow>
     numbered s \<and> 1 \<le> expectedOrder s \<and> expectedOrder s \<le> int (length (buttons s)) + 1"

text \<open>No button has a handler: the round is over.\<close>

definition allDisabled :: "GameEngine \<Rightarrow> bool" where
  "allDisabled s \<longleftrightarrow> list_all (\<lambda>btn. onclick btn = None) (buttons s)"

text \<open>
  What clicking keeps true of a numbered round once it awaits input: no scramble is in
  progress and every button below \<open>expectedOrder\<close> has no handler.
\<close>

definition passedDisabled :: "GameEngine \<Rightarrow> bool" where
  "passedDisabled s \<longleftrightarrow>
     \<not> isScrambling s \<and> numbered s \<and>
     list_all (\<lambda>btn. order btn < expectedOrder s \<longrightarrow> onclick btn = None) (buttons s)"

text \<open>
  The states of a round that was started while no callback was pending. Either its own
  chain is still pending, alone, and no button has a handler yet; or nothing is pending
  and the round is as clicking keeps it.
\<close>

definition chainPending :: "GameEngine \<Rightarrow> bool" where
  "chainPending s \<longleftrightarrow>
     length (timers s) = 1 \<and> allDisabled s \<and> expectedOrder s = 1 \<and> numbered s"

definition settled :: "GameEngine \<Rightarrow> bool" where
  "settled s \<longleftrightarrow> timers s = [] \<and> passedDisabled s"

definition ownChainOnly :: "GameEngine \<Rightarrow> bool" where
  "ownChainOnly s \<longleftrightarrow> chainPending s \<or> settled s"

text \<open>
  Clicking the buttons numbered \<open>1, \<dots>, k\<close> in this order; in a numbered round the
  button numbered \<open>j + 1\<close> is the one at index \<open>j\<close>.
\<close>

definition clickInOrder :: "messages \<Rightarrow> nat \<Rightarrow> GameEngine \<Rightarrow> GameEngine" where
  "clickInOrder M k s = fold (click M) [0..<k] s"

text \<open>
  The button at index \<open>j\<close> as one relocation leaves it: the \<open>forEach\<close> reaches it after
  \<open>2 * j\<close> draws, makes it absolutely positioned and moves it to the position drawn.
\<close>

definition relocated :: "(nat \<Rightarrow> real) \<Rightarrow> GameEngine \<Rightarrow> nat \<Rightarrow> MemoryButton" where
  "relocated rand s j =
     (let pos = fst (getRandomPosition rand (s\<lparr> randomCalls := randomCalls s + 2 * j \<rparr>))
      in setPosition (fst pos) (snd pos) ((buttons s ! j)\<lparr> style_position := ''absolute'' \<rparr>))"

text \<open>One relocation of every button followed by the wait of 2000 ms.\<close>

definition scrambleRound :: "(nat \<Rightarrow> real) \<Rightarrow> GameEngine \<Rightarrow> GameEngine" where
  "scrambleRound rand s = (scramblePass rand s)\<lparr> now := now s + 2000 \<rparr>"

text \<open>A character that is a decimal digit.\<close>

definition isDecimalDigit :: "char \<Rightarrow> bool" where
  "isDecimalDigit c \<longleftrightarrow> 48 \<le> (of_char c :: nat) \<and> (of_char c :: nat) \<le> 57"

subsection \<open>Sample inputs\<close>

definition sampleMessages :: messages where
  "sampleMessages =
     \<lparr> inputLabel = ''How many buttons to create?'', goButton = ''Go!'',
       invalidInput = ''Please enter a number between 3 and 7.'',
       excellentMemory = ''Excellent memory!'', wrongOrder = ''Wrong order!'' \<rparr>"

definition halves :: "nat \<Rightarrow> real" where
  "halves k = 1 / 2"

text \<open>A round of three in a window of 800 by 600, once the scramble chain has run.\<close>

definition round3 :: GameEngine where
  "round3 =
     tick halves (tick halves (tick halves (tick halves
       (startGame halves 3 (GameEngine_new 800 600)))))"


text \<open>A round of three in the same window, after its first relocation.\<close>

definition scrambling3 :: GameEngine where
  "scrambling3 = tick halves (startGame halves 3 (GameEngine_new 800 600))"

text \<open>
  A round of four started while the chain of a round of three is still pending: the
  first round is started at time 0, its first relocation runs at 3000, and the second
  round is started right after it. \<open>staleTick\<close> is the page after the next timer,
  \<open>staleLater\<close> the page after five timers.
\<close>

definition staleStart :: GameEngine where
  "staleStart = startGame halves 4 scrambling3"

definition staleTick :: GameEngine where
  "staleTick = tick halves staleStart"

definition staleLater :: GameEngine where
  "staleLater = tick halves (tick halves (tick halves (tick halves staleTick)))"



definition lostStale :: GameEngine where
  "lostStale = click sampleMessages 1 staleLater"

definition lostRearmed :: GameEngine where
  "lostRearmed = tick halves (tick halves (tick halves lostStale))"


text \<open>The page with a text in the number field, no round started yet.\<close>

definition typed :: "string \<Rightarrow> GameEngine" where
  "typed v = (GameEngine_new 800 600)\<lparr> input_value := v \<rparr>"



text \<open>The same window after a resize below the footprint of a button.\<close>

definition smallWindow :: GameEngine where
  "smallWindow = (GameEngine_new 100 50)"

section \<open>Properties\<close>

subsection \<open>Auxiliary facts\<close>

declare digitsOf.simps [simp del] generateButtons_from.simps [simp del]

lemmas eval_defs =
  startGame_def setTimeout_def generateButtons_def generateButtons_from.simps generateButton_def
  resetGame_def GameEngine_new_def createHTMLElement_def Let_def toString_def digitsOf.simps
  digitChar_def tick_def fire_def scrambleSequence_def scramblePass_def scrambleButton_def
  getRandomPosition_def setPosition_def prepareForUser_def showNumber_def enableClick_def
  disableClick_def click_def handleButtonClick_def revealAll_def displayStatus_def halves_def
  sampleMessages_def upt_rec

lemma map_update_same:
  assumes "f y = f (xs ! i)"
  shows "map f (xs[i := y]) = map f xs"
proof (cases "i < length xs")
  case True
  with assms show ?thesis
    by (simp add: map_update list_update_same_conv)
next
  case False
  then have "xs[i := y] = xs"
    by (intro list_update_beyond) (simp add: not_less)
  then show ?thesis by simp
qed

text \<open>What one relocation leaves alone.\<close>

lemma scrambleButton_fields [simp]:
  "expectedOrder (scrambleButton rand i s) = expectedOrder s"
  "isScrambling (scrambleButton rand i s) = isScrambling s"
  "messageDisplay (scrambleButton rand i s) = messageDisplay s"
  "statusLog (scrambleButton rand i s) = statusLog s"
  "input_value (scrambleButton rand i s) = input_value s"
  "innerWidth (scrambleButton rand i s) = innerWidth s"
  "innerHeight (scrambleButton rand i s) = innerHeight s"
  "now (scrambleButton rand i s) = now s"
  "timers (scrambleButton rand i s) = timers s"
  "randomCalls (scrambleButton rand i s) = randomCalls s + 2"
  "length (buttons (scrambleButton rand i s)) = length (buttons s)"
  by (simp_all add: scrambleButton_def getRandomPosition_def Let_def)

lemma scrambleButton_maps [simp]:
  "map order (buttons (scrambleButton rand i s)) = map order (buttons s)"
  "map onclick (buttons (scrambleButton rand i s)) = map onclick (buttons s)"
  "map textContent (buttons (scrambleButton rand i s)) = map textContent (buttons s)"
  by (simp_all add: scrambleButton_def getRandomPosition_def Let_def setPosition_def map_update_same)

lemma fold_scrambleButton_fields [simp]:
  "expectedOrder (fold (scrambleButton rand) xs s) = expectedOrder s"
  "isScrambling (fold (scrambleButton rand) xs s) = isScrambling s"
  "messageDisplay (fold (scrambleButton rand) xs s) = messageDisplay s"
  "statusLog (fold (scrambleButton rand) xs s) = statusLog s"
  "input_value (fold (scrambleButton rand) xs s) = input_value s"
  "innerWidth (fold (scrambleButton rand) xs s) = innerWidth s"
  "innerHeight (fold (scrambleButton rand) xs s) = innerHeight s"
  "now (fold (scrambleButton rand) xs s) = now s"
  "timers (fold (scrambleButton rand) xs s) = timers s"
  "randomCalls (fold (scrambleButton rand) xs s) = randomCalls s + 2 * length xs"
  "length (buttons (fold (scrambleButton rand) xs s)) = length (buttons s)"
  "map order (buttons (fold (scrambleButton rand) xs s)) = map order (buttons s)"
  "map onclick (buttons (fold (scrambleButton rand) xs s)) = map onclick (buttons s)"
  "map textContent (buttons (fold (scrambleButton rand) xs s)) = map textContent (buttons s)"
  by (induction xs arbitrary: s; simp)+

lemma scramblePass_fields [simp]:
  "expectedOrder (scramblePass rand s) = expectedOrder s"
  "isScrambling (scramblePass rand s) = True"
  "messageDisplay (scramblePass rand s) = messageDisplay s"
  "statusLog (scramblePass rand s) = statusLog s"
  "input_value (scramblePass rand s) = input_value s"
  "innerWidth (scramblePass rand s) = innerWidth s"
  "innerHeight (scramblePass rand s) = innerHeight s"
  "now (scramblePass rand s) = now s"
  "timers (scramblePass rand s) = timers s"
  "randomCalls (scramblePass rand s) = randomCalls s + 2 * length (buttons s)"
  "length (buttons (scramblePass rand s)) = length (buttons s)"
  "map order (buttons (scramblePass rand s)) = map order (buttons s)"
  "map onclick (buttons (scramblePass rand s)) = map onclick (buttons s)"
  "map textContent (buttons (scramblePass rand s)) = map textContent (buttons s)"
  by (simp_all add: scramblePass_def)

text \<open>What \<open>prepareForUser\<close> does to the fields and to each button.\<close>

lemma prepareForUser_fields [simp]:
  "expectedOrder (prepareForUser s) = expectedOrder s"
  "isScrambling (prepareForUser s) = False"
  "messageDisplay (prepareForUser s) = messageDisplay s"
  "statusLog (prepareForUser s) = statusLog s"
  "now (prepareForUser s) = now s"
  "timers (prepareForUser s) = timers s"
  "randomCalls (prepareForUser s) = randomCalls s"
  "length (buttons (prepareForUser s)) = length (buttons s)"
  "map order (buttons (prepareForUser s)) = map order (buttons s)"
  by (simp_all add: prepareForUser_def enableClick_def showNumber_def)


text \<open>The generation loop appends the numbers \<open>i..n\<close> and touches nothing else of the round.\<close>

lemma generateButton_fields [simp]:
  "expectedOrder (generateButton rand i s) = expectedOrder s"
  "isScrambling (generateButton rand i s) = isScrambling s"
  "messageDisplay (generateButton rand i s) = messageDisplay s"
  "statusLog (generateButton rand i s) = statusLog s"
  "now (generateButton rand i s) = now s"
  "timers (generateButton rand i s) = timers s"
  "map order (buttons (generateButton rand i s)) = map order (buttons s) @ [i]"
  by (simp_all add: generateButton_def createHTMLElement_def Let_def)

lemma generateButtons_from_fields [simp]:
  "expectedOrder (generateButtons_from rand i n s) = expectedOrder s"
  "isScrambling (generateButtons_from rand i n s) = isScrambling s"
  "messageDisplay (generateButtons_from rand i n s) = messageDisplay s"
  "statusLog (generateButtons_from rand i n s) = statusLog s"
  "now (generateButtons_from rand i n s) = now s"
  "timers (generateButtons_from rand i n s) = timers s"
  by (induction rand i n s rule: generateButtons_from.induct;
      subst generateButtons_from.simps; simp)+

lemma generateButtons_from_orders:
  "map order (buttons (generateButtons_from rand i n s)) = map order (buttons s) @ [i..n]"
proof (induction rand i n s rule: generateButtons_from.induct)
  case (1 rand i n s)
  show ?case
  proof (cases "i \<le> n")
    case True
    with 1 show ?thesis
      by (subst generateButtons_from.simps) (simp add: upto_rec1)
  next
    case False
    then show ?thesis by (subst generateButtons_from.simps) simp
  qed
qed

lemma startGame_fields [simp]:
  "expectedOrder (startGame rand n s) = 1"
  "isScrambling (startGame rand n s) = False"
  "messageDisplay (startGame rand n s) = messageDisplay s"
  "statusLog (startGame rand n s) = statusLog s"
  "now (startGame rand n s) = now s"
  "timers (startGame rand n s) = timers s @ [(now s + nat (n * 1000), ScrambleSequence n n)]"
  "map order (buttons (startGame rand n s)) = [1..n]"
  by (simp_all add: startGame_def setTimeout_def generateButtons_def resetGame_def
        generateButtons_from_orders)


lemma startGame_length: "length (buttons (startGame rand n s)) = nat n"
proof -
  have "length (map order (buttons (startGame rand n s))) = length [1..n]"
    by (simp only: startGame_fields)
  then have "length (buttons (startGame rand n s)) = length [1..n]"
    by (simp only: length_map)
  then show ?thesis by (simp only: length_upto)
qed

text \<open>The two branches of \<open>handleButtonClick\<close> and the three cases of a pointer click.\<close>

lemma handleButtonClick_correct:
  assumes "\<not> isScrambling s" "order (buttons s ! i) = expectedOrder s"
  shows "handleButtonClick M i s =
     s\<lparr> buttons := (buttons s)[i := (buttons s ! i)\<lparr> textContent := toString 10 (order (buttons s ! i)), onclick := None \<rparr>],
        expectedOrder := expectedOrder s + 1,
        messageDisplay := (if expectedOrder s = int (length (buttons s)) then excellentMemory M else messageDisplay s),
        statusLog := statusLog s @ (if expectedOrder s = int (length (buttons s)) then [excellentMemory M] else []) \<rparr>"
  using assms
  by (simp add: handleButtonClick_def Let_def displayStatus_def disableClick_def showNumber_def)

lemma handleButtonClick_wrong:
  assumes "\<not> isScrambling s" "order (buttons s ! i) \<noteq> expectedOrder s"
  shows "handleButtonClick M i s =
     s\<lparr> buttons := map (\<lambda>btn. btn\<lparr> textContent := toString 10 (order btn), onclick := None \<rparr>) (buttons s),
        messageDisplay := wrongOrder M,
        statusLog := statusLog s @ [wrongOrder M] \<rparr>"
  using assms
  by (simp add: handleButtonClick_def Let_def displayStatus_def revealAll_def disableClick_def showNumber_def)


lemma click_enabled:
  "i < length (buttons s) \<Longrightarrow> onclick (buttons s ! i) = Some HandleButtonClick \<Longrightarrow> click M i s = handleButtonClick M i s"
  by (simp add: click_def)


lemma numbered_nth:
  assumes "numbered s" "j < length (buttons s)"
  shows "order (buttons s ! j) = int j + 1"
proof -
  have "order (buttons s ! j) = map order (buttons s) ! j"
    using assms(2) by simp
  also have "\<dots> = [1..int (length (buttons s))] ! j"
    using assms(1) by (simp add: numbered_def)
  also have "\<dots> = 1 + int j"
    using assms(2) by (intro nth_upto) simp
  finally show ?thesis by simp
qed

lemma awaitingInput_progress:
  "awaitingInput s \<longleftrightarrow> (\<exists>k < length (buttons s). progress k s)"
proof
  assume a: "awaitingInput s"
  define k where "k = nat (expectedOrder s - 1)"
  from a have e: "expectedOrder s = int k + 1" "k < length (buttons s)"
    by (auto simp: awaitingInput_def k_def)
  from a have n: "numbered s" by (simp add: awaitingInput_def)
  have "progress k s"
    unfolding progress_def
  proof (intro conjI allI impI)
    fix j assume j: "j < length (buttons s)"
    from a j have "if order (buttons s ! j) < expectedOrder s
        then textContent (buttons s ! j) = toString 10 (order (buttons s ! j)) \<and> onclick (buttons s ! j) = None
        else textContent (buttons s ! j) = [] \<and> onclick (buttons s ! j) = Some HandleButtonClick"
      by (simp add: awaitingInput_def list_all_length)
    then show "textContent (buttons s ! j) = (if j < k then toString 10 (int j + 1) else [])"
      "onclick (buttons s ! j) = (if j < k then None else Some HandleButtonClick)"
      using numbered_nth [OF n j] e by (auto split: if_splits)
  qed (use a e n in \<open>auto simp: awaitingInput_def\<close>)
  with e show "\<exists>k < length (buttons s). progress k s" by blast
next
  assume "\<exists>k < length (buttons s). progress k s"
  then obtain k where k: "k < length (buttons s)" "progress k s" by blast
  then have n: "numbered s" by (simp add: progress_def)
  show "awaitingInput s"
    unfolding awaitingInput_def list_all_length
  proof (intro conjI allI impI)
    fix j assume j: "j < length (buttons s)"
    with k numbered_nth [OF n j]
    show "if order (buttons s ! j) < expectedOrder s
        then textContent (buttons s ! j) = toString 10 (order (buttons s ! j)) \<and> onclick (buttons s ! j) = None
        else textContent (buttons s ! j) = [] \<and> onclick (buttons s ! j) = Some HandleButtonClick"
      by (auto simp: progress_def)
  qed (use k in \<open>auto simp: progress_def\<close>)
qed

lemma progress_click:
  assumes "progress k s" "k < length (buttons s)"
  shows "progress (Suc k) (click M k s)"
    and "length (buttons (click M k s)) = length (buttons s)"
    and "statusLog (click M k s) = statusLog s @ (if Suc k = length (buttons s) then [excellentMemory M] else [])"
    and "messageDisplay (click M k s) = (if Suc k = length (buttons s) then excellentMemory M else messageDisplay s)"
proof -
  from assms have ns: "\<not> isScrambling s" and n: "numbered s" and e: "expectedOrder s = int k + 1"
    and en: "onclick (buttons s ! k) = Some HandleButtonClick"
    by (auto simp: progress_def)
  have o: "order (buttons s ! k) = expectedOrder s"
    using numbered_nth [OF n assms(2)] e by simp
  have c: "click M k s = handleButtonClick M k s"
    using assms(2) en by (rule click_enabled)
  note h = handleButtonClick_correct [OF ns o, of M]
  show "length (buttons (click M k s)) = length (buttons s)"
    unfolding c h by simp
  show "statusLog (click M k s) = statusLog s @ (if Suc k = length (buttons s) then [excellentMemory M] else [])"
    unfolding c h using e by auto
  show "messageDisplay (click M k s) = (if Suc k = length (buttons s) then excellentMemory M else messageDisplay s)"
    unfolding c h using e by auto
  have "map order (buttons (click M k s)) = map order (buttons s)"
    unfolding c h by (simp add: map_update list_update_same_conv assms(2))
  then have "numbered (click M k s)"
    using n unfolding numbered_def c h by simp
  then show "progress (Suc k) (click M k s)"
    unfolding progress_def c h using assms o e ns
    by (auto simp: progress_def nth_list_update less_Suc_eq)
qed

lemma digitsOf_nonempty: "digitsOf radix k \<noteq> []"
  by (subst digitsOf.simps) simp

lemma toString_nonempty: "toString radix i \<noteq> []"
  by (simp add: toString_def digitsOf_nonempty)

lemma clickInOrder_Suc: "clickInOrder M (Suc k) s = click M k (clickInOrder M k s)"
  by (simp add: clickInOrder_def)

lemma clickInOrder_progress:
  assumes "progress 0 s" "0 < length (buttons s)" "k \<le> length (buttons s)"
  shows "progress k (clickInOrder M k s) \<and>
     length (buttons (clickInOrder M k s)) = length (buttons s) \<and>
     statusLog (clickInOrder M k s) =
       statusLog s @ (if k = length (buttons s) then [excellentMemory M] else []) \<and>
     messageDisplay (clickInOrder M k s) =
       (if k = length (buttons s) then excellentMemory M else messageDisplay s)"
  using assms(3)
proof (induction k)
  case 0
  with assms(1,2) show ?case by (simp add: clickInOrder_def)
next
  case (Suc k)
  then have IH: "progress k (clickInOrder M k s)"
    "length (buttons (clickInOrder M k s)) = length (buttons s)"
    "statusLog (clickInOrder M k s) = statusLog s"
    "messageDisplay (clickInOrder M k s) = messageDisplay s"
    by auto
  from Suc.prems IH(2) have lt: "k < length (buttons (clickInOrder M k s))" by simp
  note pc = progress_click [OF IH(1) lt, of M]
  show ?case
    unfolding clickInOrder_Suc using pc IH by simp
qed

text \<open>What a pointer click leaves alone.\<close>

lemma click_length [simp]: "length (buttons (click M i s)) = length (buttons s)"
  by (simp add: click_def handleButtonClick_def Let_def displayStatus_def revealAll_def
      split: option.splits handler.splits)

lemma click_orders [simp]: "map order (buttons (click M i s)) = map order (buttons s)"
  by (simp add: click_def handleButtonClick_def Let_def displayStatus_def revealAll_def
      disableClick_def showNumber_def map_update_same comp_def
      split: option.splits handler.splits)

lemma click_isScrambling [simp]: "isScrambling (click M i s) = isScrambling s"
  by (simp add: click_def handleButtonClick_def Let_def displayStatus_def revealAll_def
      split: option.splits handler.splits)

lemma click_timers [simp]: "timers (click M i s) = timers s"
  by (simp add: click_def handleButtonClick_def Let_def displayStatus_def revealAll_def
      split: option.splits handler.splits)

lemma click_numbered [simp]: "numbered (click M i s) = numbered s"
  by (simp add: numbered_def)

lemma click_expectedOrder:
  "expectedOrder (click M i s) = expectedOrder s \<or>
   (expectedOrder (click M i s) = expectedOrder s + 1 \<and> i < length (buttons s) \<and>
    order (buttons s ! i) = expectedOrder s)"
  by (simp add: click_def handleButtonClick_def Let_def displayStatus_def revealAll_def
      split: option.splits handler.splits)

text \<open>Once no button has a handler, clicks change nothing.\<close>


lemma allDisabled_click: "allDisabled s \<Longrightarrow> click M i s = s"
  by (cases "i < length (buttons s)") (simp_all add: allDisabled_def list_all_length click_def)

lemma allDisabled_clicks: "allDisabled s \<Longrightarrow> fold (click M) cs s = s"
  by (induction cs) (simp_all add: allDisabled_click)


lemma allDisabled_wrong:
  assumes "\<not> isScrambling s" "order (buttons s ! i) \<noteq> expectedOrder s"
  shows "allDisabled (handleButtonClick M i s)"
  unfolding handleButtonClick_wrong [OF assms] by (simp add: allDisabled_def list_all_iff)


lemma passedDisabled_click:
  assumes "passedDisabled s"
  shows "passedDisabled (click M i s)"
proof (cases "i < length (buttons s) \<and> onclick (buttons s ! i) = Some HandleButtonClick")
  case False
  then have "click M i s = s"
    by (auto simp: click_def split: option.splits handler.splits)
  with assms show ?thesis by simp
next
  case True
  then have c: "click M i s = handleButtonClick M i s" by (simp add: click_enabled)
  from assms have ns: "\<not> isScrambling s" and n: "numbered s" by (auto simp: passedDisabled_def)
  show ?thesis
  proof (cases "order (buttons s ! i) = expectedOrder s")
    case False
    from allDisabled_wrong [OF ns False, of M] 
    have "list_all (\<lambda>btn. onclick btn = None) (buttons (click M i s))"
      by (simp add: c allDisabled_def)
    then have "list_all (\<lambda>btn. order btn < expectedOrder (click M i s) \<longrightarrow> onclick btn = None) (buttons (click M i s))"
      by (simp add: list_all_iff)
    with ns n show ?thesis by (simp add: passedDisabled_def)
  next
    case o: True
    have "\<forall>j < length (buttons s). order (buttons (click M i s) ! j) < expectedOrder (click M i s) \<longrightarrow> onclick (buttons (click M i s) ! j) = None"
    proof (intro allI impI)
      fix j assume j: "j < length (buttons s)" 
        and lt: "order (buttons (click M i s) ! j) < expectedOrder (click M i s)"
      show "onclick (buttons (click M i s) ! j) = None"
      proof (cases "j = i")
        case True
        then show ?thesis unfolding c handleButtonClick_correct [OF ns o] using j by simp
      next
        case False
        with numbered_nth [OF n j] numbered_nth [OF n] True o 
        have "order (buttons s ! j) \<noteq> expectedOrder s" by auto
        with lt False j have "order (buttons s ! j) < expectedOrder s"
          unfolding c handleButtonClick_correct [OF ns o] by simp
        with assms j have "onclick (buttons s ! j) = None"
          by (simp add: passedDisabled_def list_all_length)
        with False j show ?thesis unfolding c handleButtonClick_correct [OF ns o] by simp
      qed
    qed
    then have "list_all (\<lambda>btn. order btn < expectedOrder (click M i s) \<longrightarrow> onclick btn = None) (buttons (click M i s))"
      by (simp add: list_all_length)
    with ns n show ?thesis by (simp add: passedDisabled_def)
  qed
qed


lemma fold_click_length [simp]: "length (buttons (fold (click M) cs s)) = length (buttons s)"
  by (induction cs arbitrary: s) simp_all

text \<open>The sample round, evaluated.\<close>

lemma round3_value:
  "round3 =
    \<lparr>buttons =
      [\<lparr>btn_id = ''btn-1'', color = ''#7fffff'', order = 1,
        className = ''memory-button'', backgroundColor = ''#7fffff'',
        textContent = [], onclick = Some HandleButtonClick,
        style_position = ''absolute'', style_display = ''inline-flex'',
        style_marginRight = ''5px'', style_left = ''320px'', style_top = ''260px''\<rparr>,
       \<lparr>btn_id = ''btn-2'', color = ''#7fffff'', order = 2,
        className = ''memory-button'', backgroundColor = ''#7fffff'',
        textContent = [], onclick = Some HandleButtonClick,
        style_position = ''absolute'', style_display = ''inline-flex'',
        style_marginRight = ''5px'', style_left = ''320px'', style_top = ''260px''\<rparr>,
       \<lparr>btn_id = ''btn-3'', color = ''#7fffff'', order = 3,
        className = ''memory-button'', backgroundColor = ''#7fffff'',
        textContent = [], onclick = Some HandleButtonClick,
        style_position = ''absolute'', style_display = ''inline-flex'',
        style_marginRight = ''5px'', style_left = ''320px'', style_top = ''260px''\<rparr>],
     expectedOrder = 1, isScrambling = False, messageDisplay = [],
     statusLog = [], input_value = [], innerWidth = 800, innerHeight = 600,
     now = 9000, timers = [], randomCalls = 21\<rparr>"
  by (simp add: round3_def eval_defs)


subsection \<open>Timers\<close>

lemma earliest_less: "earliest ts = Some j \<Longrightarrow> j < length ts"
  by (induction ts arbitrary: j) (auto split: option.splits if_splits)

lemma earliest_None: "earliest ts = None \<longleftrightarrow> ts = []"
  by (cases ts) (auto split: option.splits)

lemma pendingWork_append [simp]: "pendingWork (xs @ ys) = pendingWork xs + pendingWork ys"
  by (induction xs rule: pendingWork.induct) simp_all

lemma pendingWork_remove:
  assumes "j < length ts" "ts ! j = (t, ScrambleSequence n r)"
  shows "pendingWork ts = Suc (nat r) + pendingWork (take j ts @ drop (Suc j) ts)"
proof -
  have "ts = take j ts @ (ts ! j) # drop (Suc j) ts"
    using assms(1) by (rule id_take_nth_drop)
  then have "pendingWork ts = pendingWork (take j ts @ (t, ScrambleSequence n r) # drop (Suc j) ts)"
    using assms(2) by simp
  then show ?thesis by simp
qed

lemma scrambleSequence_timers:
  "timers (scrambleSequence rand n r s) =
     (if r \<le> 0 then timers s else timers s @ [(now s + 2000, ScrambleSequence n (r - 1))])"
  by (simp add: scrambleSequence_def setTimeout_def)

lemma fire_work:
  assumes "j < length (timers s)"
  shows "Suc (pendingWork (timers (fire rand j s))) = pendingWork (timers s)"
proof -
  obtain t n r where tj: "timers s ! j = (t, ScrambleSequence n r)"
    by (metis callback.exhaust surj_pair)
  have "pendingWork (timers (fire rand j s)) =
      pendingWork (take j (timers s) @ drop (Suc j) (timers s)) + (if r \<le> 0 then 0 else Suc (nat (r - 1)))"
    by (simp add: fire_def tj scrambleSequence_timers)
  also have "\<dots> = pendingWork (take j (timers s) @ drop (Suc j) (timers s)) + nat r"
    by (auto simp: nat_diff_distrib Suc_nat_eq_nat_zadd1)
  finally show ?thesis
    using pendingWork_remove [OF assms tj] by simp
qed

lemma tick_work:
  assumes "timers s \<noteq> []"
  shows "Suc (pendingWork (timers (tick rand s))) = pendingWork (timers s)"
proof -
  from assms obtain j where j: "earliest (timers s) = Some j"
    using earliest_None [of "timers s"] by (cases "earliest (timers s)") auto
  then have "j < length (timers s)" by (rule earliest_less)
  then show ?thesis using j by (simp add: tick_def fire_work)
qed

text \<open>Each timer that runs takes one off the pending work, so \<open>drain\<close> ends.\<close>

termination drain
proof (relation "measure (\<lambda>(rand :: nat \<Rightarrow> real, s :: GameEngine). pendingWork (timers s))", goal_cases)
  case 1
  show ?case by simp
next
  case (2 rand s)
  then show ?case using tick_work [of s rand] by simp
qed

declare drain.simps [simp del]



lemma drain_quiescent: "timers (drain rand s) = []"
  by (induction rand s rule: drain.induct) (subst drain.simps, simp)

subsection \<open>The scramble chain\<close>

lemma scrambleRound_fields [simp]:
  "expectedOrder (scrambleRound rand s) = expectedOrder s"
  "isScrambling (scrambleRound rand s) = True"
  "messageDisplay (scrambleRound rand s) = messageDisplay s"
  "statusLog (scrambleRound rand s) = statusLog s"
  "innerWidth (scrambleRound rand s) = innerWidth s"
  "innerHeight (scrambleRound rand s) = innerHeight s"
  "now (scrambleRound rand s) = now s + 2000"
  "timers (scrambleRound rand s) = timers s"
  "randomCalls (scrambleRound rand s) = randomCalls s + 2 * length (buttons s)"
  "length (buttons (scrambleRound rand s)) = length (buttons s)"
  "map order (buttons (scrambleRound rand s)) = map order (buttons s)"
  "map onclick (buttons (scrambleRound rand s)) = map onclick (buttons s)"
  "map textContent (buttons (scrambleRound rand s)) = map textContent (buttons s)"
  by (simp_all add: scrambleRound_def)

lemma scrambleRounds_fields [simp]:
  "expectedOrder ((scrambleRound rand ^^ k) s) = expectedOrder s"
  "messageDisplay ((scrambleRound rand ^^ k) s) = messageDisplay s"
  "statusLog ((scrambleRound rand ^^ k) s) = statusLog s"
  "now ((scrambleRound rand ^^ k) s) = now s + 2000 * k"
  "timers ((scrambleRound rand ^^ k) s) = timers s"
  "length (buttons ((scrambleRound rand ^^ k) s)) = length (buttons s)"
  "map order (buttons ((scrambleRound rand ^^ k) s)) = map order (buttons s)"
  by (induction k; simp)+

lemma scrambleRounds_randomCalls [simp]:
  "randomCalls ((scrambleRound rand ^^ k) s) = randomCalls s + 2 * k * length (buttons s)"
  by (induction k) (simp_all add: algebra_simps)

lemma tick_single:
  assumes "timers s = [(t, ScrambleSequence n r)]"
  shows "tick rand s = scrambleSequence rand n r (s\<lparr> timers := [], now := max (now s) t \<rparr>)"
  using assms by (simp add: tick_def fire_def)








lemma relocated_fields [simp]:
  "style_position (relocated rand s j) = ''absolute''"
  "order (relocated rand s j) = order (buttons s ! j)"
  by (simp_all add: relocated_def Let_def setPosition_def)


lemma scrambleRounds_numbered [simp]: "numbered ((scrambleRound rand ^^ k) s) = numbered s"
  by (simp add: numbered_def)







text \<open>The sample states, evaluated.\<close>

lemma scrambling3_value:
  "scrambling3 =
   \<lparr>buttons =
       [\<lparr>btn_id = ''btn-1'', color = ''#7fffff'', order = 1,
           className = ''memory-button'', backgroundColor = ''#7fffff'',
           textContent = ''1'', onclick = None, style_position = ''absolute'',
           style_display = ''inline-flex'', style_marginRight = ''5px'',
           style_left = ''320px'', style_top = ''260px''\<rparr>,
        \<lparr>btn_id = ''btn-2'', color = ''#7fffff'', order = 2,
           className = ''memory-button'', backgroundColor = ''#7fffff'',
           textContent = ''2'', onclick = None, style_position = ''absolute'',
           style_display = ''inline-flex'', style_marginRight = ''5px'',
           style_left = ''320px'', style_top = ''260px''\<rparr>,
        \<lparr>btn_id = ''btn-3'', color = ''#7fffff'', order = 3,
           className = ''memory-button'', backgroundColor = ''#7fffff'',
           textContent = ''3'', onclick = None, style_position = ''absolute'',
           style_display = ''inline-flex'', style_marginRight = ''5px'',
           style_left = ''320px'', style_top = ''260px''\<rparr>],
       expectedOrder = 1, isScrambling = True, messageDisplay = [],
       statusLog = [], input_value = [], innerWidth = 800, innerHeight = 600,
       now = 3000, timers = [(5000, ScrambleSequence 3 2)], randomCalls = 9\<rparr>"
  by (simp add: scrambling3_def eval_defs)


lemma staleStart_value:
  "staleStart =
   \<lparr>buttons =
       [\<lparr>btn_id = ''btn-1'', color = ''#7fffff'', order = 1,
           className = ''memory-button'', backgroundColor = ''#7fffff'',
           textContent = ''1'', onclick = None, style_position = ''relative'',
           style_display = ''inline-flex'', style_marginRight = ''5px'',
           style_left = [], style_top = []\<rparr>,
        \<lparr>btn_id = ''btn-2'', color = ''#7fffff'', order = 2,
           className = ''memory-button'', backgroundColor = ''#7fffff'',
           textContent = ''2'', onclick = None, style_position = ''relative'',
           style_display = ''inline-flex'', style_marginRight = ''5px'',
           style_left = [], style_top = []\<rparr>,
        \<lparr>btn_id = ''btn-3'', color = ''#7fffff'', order = 3,
           className = ''memory-button'', backgroundColor = ''#7fffff'',
           textContent = ''3'', onclick = None, style_position = ''relative'',
           style_display = ''inline-flex'', style_marginRight = ''5px'',
           style_left = [], style_top = []\<rparr>,
        \<lparr>btn_id = ''btn-4'', color = ''#7fffff'', order = 4,
           className = ''memory-button'', backgroundColor = ''#7fffff'',
           textContent = ''4'', onclick = None, style_position = ''relative'',
           style_display = ''inline-flex'', style_marginRight = ''5px'',
           style_left = [], style_top = []\<rparr>],
       expectedOrder = 1, isScrambling = False, messageDisplay = [],
       statusLog = [], input_value = [], innerWidth = 800, innerHeight = 600,
       now = 3000,
       timers = [(5000, ScrambleSequence 3 2), (7000, ScrambleSequence 4 4)],
       randomCalls = 13\<rparr>"
  by (simp add: staleStart_def scrambling3_value eval_defs)

lemma staleTick_value:
  "staleTick =
   \<lparr>buttons =
       [\<lparr>btn_id = ''btn-1'', color = ''#7fffff'', order = 1,
           className = ''memory-button'', backgroundColor = ''#7fffff'',
           textContent = ''1'', onclick = None, style_position = ''absolute'',
           style_display = ''inline-flex'', style_marginRight = ''5px'',
           style_left = ''320px'', style_top = ''260px''\<rparr>,
        \<lparr>btn_id = ''btn-2'', color = ''#7fffff'', order = 2,
           className = ''memory-button'', backgroundColor = ''#7fffff'',
           textContent = ''2'', onclick = None, style_position = ''absolute'',
           style_display = ''inline-flex'', style_marginRight = ''5px'',
           style_left = ''320px'', style_top = ''260px''\<rparr>,
        \<lparr>btn_id = ''btn-3'', color = ''#7fffff'', order = 3,
           className = ''memory-button'', backgroundColor = ''#7fffff'',
           textContent = ''3'', onclick = None, style_position = ''absolute'',
           style_display = ''inline-flex'', style_marginRight = ''5px'',
           style_left = ''320px'', style_top = ''260px''\<rparr>,
        \<lparr>btn_id = ''btn-4'', color = ''#7fffff'', order = 4,
           className = ''memory-button'', backgroundColor = ''#7fffff'',
           textContent = ''4'', onclick = None, style_position = ''absolute'',
           style_display = ''inline-flex'', style_marginRight = ''5px'',
           style_left = ''320px'', style_top = ''260px''\<rparr>],
       expectedOrder = 1, isScrambling = True, messageDisplay = [],
       statusLog = [], input_value = [], innerWidth = 800, innerHeight = 600,
       now = 5000,
       timers = [(7000, ScrambleSequence 4 4), (7000, ScrambleSequence 3 1)],
       randomCalls = 21\<rparr>"
  by (simp add: staleTick_def staleStart_value eval_defs)

lemma staleLater_value:
  "staleLater =
   \<lparr>buttons =
       [\<lparr>btn_id = ''btn-1'', color = ''#7fffff'', order = 1,
           className = ''memory-button'', backgroundColor = ''#7fffff'',
           textContent = [], onclick = Some HandleButtonClick,
           style_position = ''absolute'', style_display = ''inline-flex'',
           style_marginRight = ''5px'', style_left = ''320px'',
           style_top = ''260px''\<rparr>,
        \<lparr>btn_id = ''btn-2'', color = ''#7fffff'', order = 2,
           className = ''memory-button'', backgroundColor = ''#7fffff'',
           textContent = [], onclick = Some HandleButtonClick,
           style_position = ''absolute'', style_display = ''inline-flex'',
           style_marginRight = ''5px'', style_left = ''320px'',
           style_top = ''260px''\<rparr>,
        \<lparr>btn_id = ''btn-3'', color = ''#7fffff'', order = 3,
           className = ''memory-button'', backgroundColor = ''#7fffff'',
           textContent = [], onclick = Some HandleButtonClick,
           style_position = ''absolute'', style_display = ''inline-flex'',
           style_marginRight = ''5px'', style_left = ''320px'',
           style_top = ''260px''\<rparr>,
        \<lparr>btn_id = ''btn-4'', color = ''#7fffff'', order = 4,
           className = ''memory-button'', backgroundColor = ''#7fffff'',
           textContent = [], onclick = Some HandleButtonClick,
           style_position = ''absolute'', style_display = ''inline-flex'',
           style_marginRight = ''5px'', style_left = ''320px'',
           style_top = ''260px''\<rparr>],
       expectedOrder = 1, isScrambling = False, messageDisplay = [],
       statusLog = [], input_value = [], innerWidth = 800, innerHeight = 600,
       now = 9000, timers = [(11000, ScrambleSequence 4 2)], randomCalls = 45\<rparr>"
  by (simp add: staleLater_def staleTick_value eval_defs)

subsection \<open>Events of a round\<close>

lemma scrambleSequence_fields [simp]:
  "expectedOrder (scrambleSequence rand n r s) = expectedOrder s"
  "map order (buttons (scrambleSequence rand n r s)) = map order (buttons s)"
  "length (buttons (scrambleSequence rand n r s)) = length (buttons s)"
  by (simp_all add: scrambleSequence_def setTimeout_def)

lemma fire_fields [simp]:
  "expectedOrder (fire rand j s) = expectedOrder s"
  "map order (buttons (fire rand j s)) = map order (buttons s)"
  "length (buttons (fire rand j s)) = length (buttons s)"
  by (cases "snd (timers s ! j)"; simp add: fire_def)+

lemma tick_fields [simp]:
  "expectedOrder (tick rand s) = expectedOrder s"
  "map order (buttons (tick rand s)) = map order (buttons s)"
  "length (buttons (tick rand s)) = length (buttons s)"
  by (simp_all add: tick_def split: option.splits)

lemma tick_numbered [simp]: "numbered (tick rand s) = numbered s"
  by (simp add: numbered_def)

lemma step_numbered [simp]: "numbered (step M rand ev s) = numbered s"
  by (cases ev) simp_all

lemma step_length [simp]: "length (buttons (step M rand ev s)) = length (buttons s)"
  by (cases ev) simp_all

lemma step_expectedOrder:
  assumes "numbered s"
  shows "expectedOrder (step M rand ev s) = expectedOrder s \<or>
     (expectedOrder (step M rand ev s) = expectedOrder s + 1 \<and>
      expectedOrder s \<le> int (length (buttons s)))"
proof (cases ev)
  case (Click i)
  from click_expectedOrder [of M i s] show ?thesis
  proof
    assume "expectedOrder (click M i s) = expectedOrder s"
    with Click show ?thesis by simp
  next
    assume h: "expectedOrder (click M i s) = expectedOrder s + 1 \<and> i < length (buttons s) \<and>
      order (buttons s ! i) = expectedOrder s"
    with numbered_nth [OF assms, of i] have "expectedOrder s \<le> int (length (buttons s))"
      by simp
    with h Click show ?thesis by simp
  qed
next
  case TimerFires
  then show ?thesis by simp
qed

lemma roundInvariant_step:
  assumes "roundInvariant s"
  shows "roundInvariant (step M rand ev s)"
  using assms step_expectedOrder [of s M rand ev]
  by (auto simp: roundInvariant_def)

lemma roundInvariant_runEvents:
  "roundInvariant s \<Longrightarrow> roundInvariant (runEvents M rand evs s)"
  unfolding runEvents_def
  by (induction evs arbitrary: s) (simp_all add: roundInvariant_step)

lemma runEvents_length [simp]: "length (buttons (runEvents M rand evs s)) = length (buttons s)"
  unfolding runEvents_def by (induction evs arbitrary: s) simp_all

lemma runEvents_mono:
  "roundInvariant s \<Longrightarrow> expectedOrder s \<le> expectedOrder (runEvents M rand evs s)"
  unfolding runEvents_def
proof (induction evs arbitrary: s)
  case Nil
  show ?case by simp
next
  case (Cons ev evs)
  have "expectedOrder s \<le> expectedOrder (step M rand ev s)"
    using step_expectedOrder [of s M rand ev] Cons.prems by (auto simp: roundInvariant_def)
  also have "\<dots> \<le> expectedOrder (fold (step M rand) evs (step M rand ev s))"
    using Cons.prems by (intro Cons.IH roundInvariant_step)
  finally show ?case by simp
qed

lemma roundInvariant_startGame: "roundInvariant (startGame rand n s)"
proof -
  have "length (buttons (startGame rand n s)) = nat n" by (rule startGame_length)
  moreover have "[1..n] = [1..int (nat n)]"
    by (cases "0 \<le> n") (simp_all add: upto_rec1)
  ultimately show ?thesis
    by (simp add: roundInvariant_def numbered_def)
qed

subsection \<open>Rounds started with nothing pending\<close>

lemma allDisabled_onclick: "allDisabled s \<longleftrightarrow> (\<forall>x \<in> set (map onclick (buttons s)). x = None)"
  by (simp add: allDisabled_def list_all_iff)

lemma generateButtons_from_disabled:
  assumes "\<forall>b \<in> set (buttons s). onclick b = None"
  shows "\<forall>b \<in> set (buttons (generateButtons_from rand i n s)). onclick b = None"
  using assms
proof (induction rand i n s rule: generateButtons_from.induct)
  case (1 rand i n s)
  show ?case
  proof (cases "i \<le> n")
    case True
    have "\<forall>b \<in> set (buttons (generateButton rand i s)). onclick b = None"
      using 1(2) by (simp add: generateButton_def Let_def createHTMLElement_def)
    with 1(1) True show ?thesis
      by (subst generateButtons_from.simps) simp
  next
    case False
    with 1(2) show ?thesis by (subst generateButtons_from.simps) simp
  qed
qed

lemma allDisabled_startGame: "allDisabled (startGame rand n s)"
proof -
  have "\<forall>b \<in> set (buttons (generateButtons_from rand 1 n (resetGame s))). onclick b = None"
    by (rule generateButtons_from_disabled) (simp add: resetGame_def)
  then show ?thesis
    by (simp add: startGame_def setTimeout_def generateButtons_def allDisabled_def list_all_iff)
qed

lemma chainPending_startGame:
  assumes "timers s = []"
  shows "chainPending (startGame rand n s)"
  using assms roundInvariant_startGame [of rand n s] allDisabled_startGame [of rand n s]
  by (simp add: chainPending_def roundInvariant_def)

lemma numbered_not_passed:
  assumes "numbered s" "expectedOrder s = 1"
  shows "list_all (\<lambda>btn. order btn < expectedOrder s \<longrightarrow> onclick btn = None) (buttons s)"
  using numbered_nth [OF assms(1)] assms(2) by (simp add: list_all_length)

lemma prepareForUser_numbered [simp]: "numbered (prepareForUser s) = numbered s"
  by (simp add: numbered_def)

lemma scramblePass_numbered [simp]: "numbered (scramblePass rand s) = numbered s"
  by (simp add: numbered_def)

lemma scramblePass_allDisabled [simp]: "allDisabled (scramblePass rand s) = allDisabled s"
  by (simp add: allDisabled_onclick)

lemma chainPending_tick:
  assumes "chainPending s"
  shows "ownChainOnly (tick rand s)"
proof -
  from assms obtain x where x: "timers s = [x]"
    by (cases "timers s") (auto simp: chainPending_def)
  obtain t n r where "x = (t, ScrambleSequence n r)"
    by (metis callback.exhaust surj_pair)
  with x have ts: "timers s = [(t, ScrambleSequence n r)]" by simp
  define s' where "s' = s\<lparr> timers := [], now := max (now s) t \<rparr>"
  have tk: "tick rand s = scrambleSequence rand n r s'"
    unfolding s'_def using ts by (rule tick_single)
  from assms have s': "timers s' = []" "allDisabled s'" "expectedOrder s' = 1" "numbered s'"
    by (simp_all add: s'_def chainPending_def allDisabled_def numbered_def)
  show ?thesis
  proof (cases "r \<le> 0")
    case True
    then have e: "tick rand s = prepareForUser s'"
      by (simp add: tk scrambleSequence_def)
    have "passedDisabled (prepareForUser s')"
      unfolding passedDisabled_def
      using s' numbered_not_passed [of "prepareForUser s'"] by simp
    with s'(1) show ?thesis
      by (simp add: e ownChainOnly_def settled_def)
  next
    case False
    then have e: "tick rand s = setTimeout (ScrambleSequence n (r - 1)) 2000 (scramblePass rand s')"
      by (simp add: tk scrambleSequence_def)
    have "chainPending (setTimeout (ScrambleSequence n (r - 1)) 2000 (scramblePass rand s'))"
      using s' by (simp add: chainPending_def setTimeout_def allDisabled_onclick numbered_def)
    then show ?thesis by (simp add: e ownChainOnly_def)
  qed
qed

lemma settled_tick: "settled s \<Longrightarrow> tick rand s = s"
  by (simp add: settled_def tick_def)

lemma settled_click: "settled s \<Longrightarrow> settled (click M i s)"
  by (simp add: settled_def passedDisabled_click)

lemma chainPending_click: "chainPending s \<Longrightarrow> click M i s = s"
  by (simp add: chainPending_def allDisabled_click)

lemma ownChainOnly_step:
  assumes "ownChainOnly s"
  shows "ownChainOnly (step M rand ev s)"
proof (cases ev)
  case (Click i)
  with assms show ?thesis
    by (auto simp: ownChainOnly_def chainPending_click settled_click)
next
  case TimerFires
  with assms show ?thesis
    by (auto simp: ownChainOnly_def settled_tick dest: chainPending_tick)
qed

lemma ownChainOnly_runEvents:
  "ownChainOnly s \<Longrightarrow> ownChainOnly (runEvents M rand evs s)"
  unfolding runEvents_def
  by (induction evs arbitrary: s) (simp_all add: ownChainOnly_step)

lemma ownChainOnly_round:
  assumes "timers s0 = []"
  shows "ownChainOnly (runEvents M rand evs (startGame rand n s0))"
  using assms
  by (intro ownChainOnly_runEvents) (simp add: ownChainOnly_def chainPending_startGame)


lemma ownChainOnly_armed:
  assumes "ownChainOnly s" "i < length (buttons s)" "onclick (buttons s ! i) \<noteq> None"
  shows "timers s = []"
  using assms
  by (auto simp: ownChainOnly_def settled_def chainPending_def allDisabled_def list_all_length)

lemma quiet_step:
  assumes "timers s = []" "allDisabled s"
  shows "step M rand ev s = s"
  using assms by (cases ev) (simp_all add: allDisabled_click tick_def)

lemma quiet_runEvents:
  assumes "timers s = []" "allDisabled s"
  shows "runEvents M rand evs s = s"
  unfolding runEvents_def
  by (induction evs) (simp_all add: quiet_step [OF assms])

lemma wrong_click_quiet:
  assumes "\<not> isScrambling s" "i < length (buttons s)" "onclick (buttons s ! i) \<noteq> None"
    "order (buttons s ! i) \<noteq> expectedOrder s" "timers s = []"
  shows "runEvents M rand evs (click M i s) = click M i s"
proof -
  from assms(3) have "onclick (buttons s ! i) = Some HandleButtonClick"
    by (cases "onclick (buttons s ! i)") (auto intro: handler.exhaust)
  with assms(2) have c: "click M i s = handleButtonClick M i s" by (rule click_enabled)
  have "allDisabled (click M i s)"
    unfolding c using assms(1,4) by (rule allDisabled_wrong)
  moreover have "timers (click M i s) = []"
    using assms(5) by simp
  ultimately show ?thesis by (intro quiet_runEvents)
qed

subsection \<open>Where a relocation puts the buttons\<close>


lemma scrambleRounds_window [simp]:
  "innerWidth ((scrambleRound rand ^^ k) s) = innerWidth s"
  "innerHeight ((scrambleRound rand ^^ k) s) = innerHeight s"
  "map onclick (buttons ((scrambleRound rand ^^ k) s)) = map onclick (buttons s)"
  "map textContent (buttons ((scrambleRound rand ^^ k) s)) = map textContent (buttons s)"
  by (induction k; simp)+




lemma setTimeout_buttons [simp]: "buttons (setTimeout cb d s) = buttons s"
  by (simp add: setTimeout_def)




lemma lostStale_value:
  "lostStale =
   \<lparr>buttons =
       [\<lparr>btn_id = ''btn-1'', color = ''#7fffff'', order = 1,
           className = ''memory-button'', backgroundColor = ''#7fffff'',
           textContent = ''1'', onclick = None, style_position = ''absolute'',
           style_display = ''inline-flex'', style_marginRight = ''5px'',
           style_left = ''320px'', style_top = ''260px''\<rparr>,
        \<lparr>btn_id = ''btn-2'', color = ''#7fffff'', order = 2,
           className = ''memory-button'', backgroundColor = ''#7fffff'',
           textContent = ''2'', onclick = None, style_position = ''absolute'',
           style_display = ''inline-flex'', style_marginRight = ''5px'',
           style_left = ''320px'', style_top = ''260px''\<rparr>,
        \<lparr>btn_id = ''btn-3'', color = ''#7fffff'', order = 3,
           className = ''memory-button'', backgroundColor = ''#7fffff'',
           textContent = ''3'', onclick = None, style_position = ''absolute'',
           style_display = ''inline-flex'', style_marginRight = ''5px'',
           style_left = ''320px'', style_top = ''260px''\<rparr>,
        \<lparr>btn_id = ''btn-4'', color = ''#7fffff'', order = 4,
           className = ''memory-button'', backgroundColor = ''#7fffff'',
           textContent = ''4'', onclick = None, style_position = ''absolute'',
           style_display = ''inline-flex'', style_marginRight = ''5px'',
           style_left = ''320px'', style_top = ''260px''\<rparr>],
       expectedOrder = 1, isScrambling = False,
       messageDisplay = ''Wrong order!'', statusLog = [''Wrong order!''],
       input_value = [], innerWidth = 800, innerHeight = 600, now = 9000,
       timers = [(11000, ScrambleSequence 4 2)], randomCalls = 45\<rparr>"
  by (simp add: lostStale_def staleLater_value eval_defs)

lemma lostRearmed_value:
  "lostRearmed =
   \<lparr>buttons =
       [\<lparr>btn_id = ''btn-1'', color = ''#7fffff'', order = 1,
           className = ''memory-button'', backgroundColor = ''#7fffff'',
           textContent = [], onclick = Some HandleButtonClick,
           style_position = ''absolute'', style_display = ''inline-flex'',
           style_marginRight = ''5px'', style_left = ''320px'',
           style_top = ''260px''\<rparr>,
        \<lparr>btn_id = ''btn-2'', color = ''#7fffff'', order = 2,
           className = ''memory-button'', backgroundColor = ''#7fffff'',
           textContent = [], onclick = Some HandleButtonClick,
           style_position = ''absolute'', style_display = ''inline-flex'',
           style_marginRight = ''5px'', style_left = ''320px'',
           style_top = ''260px''\<rparr>,
        \<lparr>btn_id = ''btn-3'', color = ''#7fffff'', order = 3,
           className = ''memory-button'', backgroundColor = ''#7fffff'',
           textContent = [], onclick = Some HandleButtonClick,
           style_position = ''absolute'', style_display = ''inline-flex'',
           style_marginRight = ''5px'', style_left = ''320px'',
           style_top = ''260px''\<rparr>,
        \<lparr>btn_id = ''btn-4'', color = ''#7fffff'', order = 4,
           className = ''memory-button'', backgroundColor = ''#7fffff'',
           textContent = [], onclick = Some HandleButtonClick,
           style_position = ''absolute'', style_display = ''inline-flex'',
           style_marginRight = ''5px'', style_left = ''320px'',
           style_top = ''260px''\<rparr>],
       expectedOrder = 1, isScrambling = False,
       messageDisplay = ''Wrong order!'', statusLog = [''Wrong order!''],
       input_value = [], innerWidth = 800, innerHeight = 600, now = 15000,
       timers = [], randomCalls = 61\<rparr>"
  by (simp add: lostRearmed_def lostStale_value eval_defs)

subsection \<open>Positions stay inside the window\<close>

lemma floor_scale_le:
  assumes "0 \<le> r" "r < 1" "0 \<le> m"
  shows "\<lfloor>r * real_of_int m\<rfloor> \<le> m"
proof -
  have "r * real_of_int m \<le> 1 * real_of_int m"
    using assms by (intro mult_right_mono) auto
  then show ?thesis by (simp add: floor_le_iff)
qed

lemma floor_scale_neg:
  assumes "0 \<le> r" "m \<le> 0"
  shows "\<lfloor>r * real_of_int m\<rfloor> \<le> 0"
proof -
  have "r * real_of_int m \<le> 0"
    using assms by (simp add: mult_nonneg_nonpos)
  then show ?thesis by (simp add: floor_le_iff)
qed

lemma clamped_coordinate:
  assumes "0 \<le> r" "r < 1"
  shows "(0 \<le> m \<longrightarrow> 0 \<le> max 0 \<lfloor>r * real_of_int m\<rfloor> \<and> max 0 \<lfloor>r * real_of_int m\<rfloor> \<le> m)
       \<and> (m < 0 \<longrightarrow> max 0 \<lfloor>r * real_of_int m\<rfloor> = 0)"
proof -
  define f where "f = \<lfloor>r * real_of_int m\<rfloor>"
  have "0 \<le> m \<Longrightarrow> f \<le> m"
    unfolding f_def using assms by (rule floor_scale_le)
  moreover have "m < 0 \<Longrightarrow> f \<le> 0"
    unfolding f_def using assms(1) by (intro floor_scale_neg) auto
  ultimately have "(0 \<le> m \<longrightarrow> 0 \<le> max 0 f \<and> max 0 f \<le> m) \<and> (m < 0 \<longrightarrow> max 0 f = 0)"
    by (auto simp: max_def)
  then show ?thesis by (simp only: f_def)
qed

text \<open>
  C8. \<open>Math.random()\<close> returns a number \<open>r\<close> with \<open>0 \<le> r < 1\<close>. For two such draws,
  the position \<open>getRandomPosition\<close> returns has \<open>0 \<le> x \<le> innerWidth - 160\<close> when the
  window is at least 160 wide and \<open>0 \<le> y \<le> innerHeight - 80\<close> when it is at least 80
  high; a coordinate whose window side is smaller than the button is exactly 0.
\<close>

theorem getRandomPosition_in_viewport:
  assumes "0 \<le> rand (randomCalls s)" "rand (randomCalls s) < 1"
    and "0 \<le> rand (randomCalls s + 1)" "rand (randomCalls s + 1) < 1"
  shows "(160 \<le> innerWidth s \<longrightarrow>
            0 \<le> fst (fst (getRandomPosition rand s)) \<and>
            fst (fst (getRandomPosition rand s)) \<le> innerWidth s - 160) \<and>
         (80 \<le> innerHeight s \<longrightarrow>
            0 \<le> snd (fst (getRandomPosition rand s)) \<and>
            snd (fst (getRandomPosition rand s)) \<le> innerHeight s - 80) \<and>
         (innerWidth s < 160 \<longrightarrow> fst (fst (getRandomPosition rand s)) = 0) \<and>
         (innerHeight s < 80 \<longrightarrow> snd (fst (getRandomPosition rand s)) = 0)"
proof -
  have x: "fst (fst (getRandomPosition rand s)) =
      max 0 \<lfloor>rand (randomCalls s) * real_of_int (innerWidth s - 160)\<rfloor>"
    by (simp add: getRandomPosition_def Let_def)
  have y: "snd (fst (getRandomPosition rand s)) =
      max 0 \<lfloor>rand (randomCalls s + 1) * real_of_int (innerHeight s - 80)\<rfloor>"
    by (simp add: getRandomPosition_def Let_def)
  note cx = clamped_coordinate [OF assms(1,2), of "innerWidth s - 160"]
  note cy = clamped_coordinate [OF assms(3,4), of "innerHeight s - 80"]
  have "(160 \<le> innerWidth s) = (0 \<le> innerWidth s - 160)"
    "(innerWidth s < 160) = (innerWidth s - 160 < 0)"
    "(80 \<le> innerHeight s) = (0 \<le> innerHeight s - 80)"
    "(innerHeight s < 80) = (innerHeight s - 80 < 0)"
    by auto
  then show ?thesis
    unfolding x y using cx cy by presburger
qed

theorem getRandomPosition_in_viewport_witness:
  "fst (getRandomPosition halves (GameEngine_new 800 600)) = (320, 260) \<and>
   320 \<le> innerWidth (GameEngine_new 800 600) - 160 \<and>
   260 \<le> innerHeight (GameEngine_new 800 600) - 80 \<and>
   innerWidth smallWindow < 160 \<and> innerHeight smallWindow < 80 \<and>
   fst (getRandomPosition halves smallWindow) = (0, 0)"
proof -
  have r: "0 \<le> halves k" "halves k < 1" for k
    by (simp_all add: halves_def)
  have big: "160 \<le> innerWidth (GameEngine_new 800 600)" "80 \<le> innerHeight (GameEngine_new 800 600)"
    by (simp_all add: GameEngine_new_def)
  have small: "innerWidth smallWindow < 160" "innerHeight smallWindow < 80"
    by (simp_all add: smallWindow_def GameEngine_new_def)
  have v: "fst (getRandomPosition halves (GameEngine_new 800 600)) = (320, 260)"
    by (simp add: getRandomPosition_def GameEngine_new_def halves_def)
  from getRandomPosition_in_viewport [of halves smallWindow, OF r r] small
  have "fst (fst (getRandomPosition halves smallWindow)) = 0"
    "snd (fst (getRandomPosition halves smallWindow)) = 0"
    by simp_all
  then have "fst (getRandomPosition halves smallWindow) = (0, 0)"
    by (simp add: prod_eq_iff)
  moreover from getRandomPosition_in_viewport [of halves "GameEngine_new 800 600", OF r r] big v
  have "320 \<le> innerWidth (GameEngine_new 800 600) - 160 \<and>
        260 \<le> innerHeight (GameEngine_new 800 600) - 80"
    by simp
  ultimately show ?thesis using v small by simp
qed

subsection \<open>Generation\<close>

text \<open>
  C5. \<open>startGame(n)\<close> leaves exactly \<open>n\<close> buttons, and their \<open>order\<close> fields read in the
  order of creation are \<open>1, 2, \<dots>, n\<close>: every number of \<open>{1..n}\<close> exactly once. This
  holds for every \<open>n\<close>, so for the sizes 3 to 7 the number field lets through.
\<close>

theorem startGame_numbers_pieces:
  "length (buttons (startGame rand n s)) = nat n \<and>
   map order (buttons (startGame rand n s)) = [1..n] \<and>
   distinct (map order (buttons (startGame rand n s))) \<and>
   set (map order (buttons (startGame rand n s))) = {1..n}"
  by (simp add: startGame_length)

subsection \<open>Clicks while scrambling\<close>

text \<open>
  C9. A call of \<open>handleButtonClick\<close> while \<open>isScrambling\<close> is set returns the state as
  it was: \<open>expectedOrder\<close>, every button with its label and handler, the status line and
  the history of displayed messages are all unchanged.
\<close>

theorem handleButtonClick_ignored_while_scrambling:
  "isScrambling s \<Longrightarrow> handleButtonClick M i s = s"
  by (simp add: handleButtonClick_def)

theorem handleButtonClick_ignored_while_scrambling_witness:
  "isScrambling scrambling3 \<and> handleButtonClick sampleMessages 0 scrambling3 = scrambling3"
proof -
  have h: "isScrambling scrambling3"
    by (simp add: scrambling3_def eval_defs)
  from handleButtonClick_ignored_while_scrambling [OF h, of sampleMessages 0] h
  show ?thesis by simp
qed

subsection \<open>Clicking in the right order\<close>

text \<open>
  C1. Take a round that awaits input with \<open>expectedOrder = 1\<close> and \<open>n\<close> buttons, and click
  the buttons numbered \<open>1, 2, \<dots>\<close> in this order. After \<open>k \<le> n\<close> clicks \<open>expectedOrder\<close>
  is \<open>k + 1\<close>, the first \<open>k\<close> buttons show their number (a non-empty text) and have no
  handler any more, and the others are still blank and armed. Nothing is displayed
  before the \<open>n\<close>-th click, and the \<open>n\<close>-th click displays the win message: the run
  adds exactly that one message to what was displayed, so the wrong-order message (a
  different text) is not among the messages of the run.
\<close>

theorem clicks_in_order_win:
  assumes "awaitingInput s" "expectedOrder s = 1" "k \<le> length (buttons s)"
  shows "expectedOrder (clickInOrder M k s) = int k + 1 \<and>
     length (buttons (clickInOrder M k s)) = length (buttons s) \<and>
     (\<forall>j < length (buttons s).
        order (buttons s ! j) = int j + 1 \<and>
        order (buttons (clickInOrder M k s) ! j) = int j + 1 \<and>
        textContent (buttons (clickInOrder M k s) ! j) =
          (if j < k then toString 10 (int j + 1) else []) \<and>
        toString 10 (int j + 1) \<noteq> [] \<and>
        onclick (buttons (clickInOrder M k s) ! j) =
          (if j < k then None else Some HandleButtonClick)) \<and>
     statusLog (clickInOrder M k s) =
       statusLog s @ (if k = length (buttons s) then [excellentMemory M] else []) \<and>
     messageDisplay (clickInOrder M k s) =
       (if k = length (buttons s) then excellentMemory M else messageDisplay s) \<and>
     (wrongOrder M \<noteq> excellentMemory M \<longrightarrow>
        wrongOrder M \<notin> set (drop (length (statusLog s)) (statusLog (clickInOrder M k s))))"
proof -
  from assms(1) obtain k0 where k0: "k0 < length (buttons s)" "progress k0 s"
    unfolding awaitingInput_progress by blast
  with assms(2) have "k0 = 0" by (simp add: progress_def)
  with k0 have p0: "progress 0 s" and pos: "0 < length (buttons s)" by auto
  note r = clickInOrder_progress [OF p0 pos assms(3), of M]
  from r have pk: "progress k (clickInOrder M k s)"
    and len: "length (buttons (clickInOrder M k s)) = length (buttons s)" by auto
  from p0 have n0: "numbered s" by (simp add: progress_def)
  from pk have nk: "numbered (clickInOrder M k s)" by (simp add: progress_def)
  have "\<forall>j < length (buttons s).
        order (buttons s ! j) = int j + 1 \<and>
        order (buttons (clickInOrder M k s) ! j) = int j + 1 \<and>
        textContent (buttons (clickInOrder M k s) ! j) =
          (if j < k then toString 10 (int j + 1) else []) \<and>
        toString 10 (int j + 1) \<noteq> [] \<and>
        onclick (buttons (clickInOrder M k s) ! j) =
          (if j < k then None else Some HandleButtonClick)"
    using pk numbered_nth [OF n0] numbered_nth [OF nk] len
    by (simp add: progress_def toString_nonempty)
  moreover have "expectedOrder (clickInOrder M k s) = int k + 1"
    using pk by (simp add: progress_def)
  ultimately show ?thesis using r by simp
qed

theorem clicks_in_order_win_witness:
  "awaitingInput round3 \<and> expectedOrder round3 = 1 \<and> length (buttons round3) = 3 \<and>
   textContent (buttons (clickInOrder sampleMessages 3 round3) ! 0) = ''1'' \<and>
   textContent (buttons (clickInOrder sampleMessages 3 round3) ! 1) = ''2'' \<and>
   textContent (buttons (clickInOrder sampleMessages 3 round3) ! 2) = ''3'' \<and>
   onclick (buttons (clickInOrder sampleMessages 3 round3) ! 0) = None \<and>
   onclick (buttons (clickInOrder sampleMessages 3 round3) ! 1) = None \<and>
   onclick (buttons (clickInOrder sampleMessages 3 round3) ! 2) = None \<and>
   expectedOrder (clickInOrder sampleMessages 3 round3) = 4 \<and>
   messageDisplay (clickInOrder sampleMessages 3 round3) = ''Excellent memory!'' \<and>
   statusLog (clickInOrder sampleMessages 3 round3) = [''Excellent memory!'']"
proof -
  have a: "awaitingInput round3"
    by (simp add: round3_value awaitingInput_def numbered_def eval_defs upto_rec1)
  have e: "expectedOrder round3 = 1"
    by (simp add: round3_value)
  have l: "length (buttons round3) = 3"
    by (simp add: round3_value)
  have k: "3 \<le> length (buttons round3)"
    by (simp add: l)
  have sl: "statusLog round3 = []" "messageDisplay round3 = []"
    by (simp_all add: round3_value)
  have ts: "toString 10 1 = ''1''" "toString 10 2 = ''2''" "toString 10 3 = ''3''"
    by (simp_all add: eval_defs)
  note w = clicks_in_order_win [OF a e k, of sampleMessages]
  from w l ts have "textContent (buttons (clickInOrder sampleMessages 3 round3) ! 0) = ''1''"
     "textContent (buttons (clickInOrder sampleMessages 3 round3) ! 1) = ''2''"
     "textContent (buttons (clickInOrder sampleMessages 3 round3) ! 2) = ''3''"
     "onclick (buttons (clickInOrder sampleMessages 3 round3) ! 0) = None"
     "onclick (buttons (clickInOrder sampleMessages 3 round3) ! 1) = None"
     "onclick (buttons (clickInOrder sampleMessages 3 round3) ! 2) = None"
    by auto
  moreover from w l sl have "expectedOrder (clickInOrder sampleMessages 3 round3) = 4"
    "messageDisplay (clickInOrder sampleMessages 3 round3) = ''Excellent memory!''"
    "statusLog (clickInOrder sampleMessages 3 round3) = [''Excellent memory!'']"
    by (simp_all add: sampleMessages_def)
  ultimately show ?thesis using a e l by simp
qed

subsection \<open>Clicking a button out of turn\<close>




subsection \<open>Buttons without a handler\<close>




subsection \<open>The Go button\<close>

lemma isRadixDigit_10: "isRadixDigit 10 c \<longleftrightarrow> isDecimalDigit c"
  by (auto simp: isRadixDigit_def digitValue_def isDecimalDigit_def Let_def
      split: option.splits if_splits)

lemma isDecimalDigit_zero: "isDecimalDigit CHR ''0''"
  by (simp add: isDecimalDigit_def)

text \<open>A text without any decimal digit does not parse.\<close>

lemma parseInt_no_digit:
  assumes "\<forall>c \<in> set v. \<not> isDecimalDigit c"
  shows "parseInt v = None"
proof -
  define S where "S = dropWhile isStrWhiteSpaceChar v"
  define S1 where "S1 = (if S \<noteq> [] \<and> (hd S = CHR ''+'' \<or> hd S = CHR ''-'') then tl S else S)"
  have "set S \<subseteq> set v"
    unfolding S_def by (auto dest: set_dropWhileD)
  moreover have "set S1 \<subseteq> set S"
    unfolding S1_def by (auto dest: list.set_sel(2))
  ultimately have nd: "\<forall>c \<in> set S1. \<not> isDecimalDigit c"
    using assms by blast
  define hex where "hex \<longleftrightarrow> 2 \<le> length S1 \<and> (take 2 S1 = ''0x'' \<or> take 2 S1 = ''0X'')"
  have nohex: "\<not> hex"
  proof
    assume hex
    then have "CHR ''0'' \<in> set (take 2 S1)" by (auto simp: hex_def)
    then have "CHR ''0'' \<in> set S1" by (rule in_set_takeD)
    with nd isDecimalDigit_zero show False by blast
  qed
  have Z: "takeWhile (isRadixDigit 10) S1 = []"
    using nd by (cases S1) (auto simp: isRadixDigit_10)
  have "parseInt v =
      (if takeWhile (isRadixDigit (if hex then 16 else 10)) (if hex then drop 2 S1 else S1) = []
       then None
       else Some ((if S \<noteq> [] \<and> hd S = CHR ''-'' then - 1 else 1) *
                  mathInt (if hex then 16 else 10)
                    (takeWhile (isRadixDigit (if hex then 16 else 10))
                       (if hex then drop 2 S1 else S1))))"
    unfolding parseInt_def Let_def S_def [symmetric] S1_def [symmetric] hex_def [symmetric] ..
  with nohex Z show ?thesis by simp
qed

lemmas parse_defs =
  parseInt_def isStrWhiteSpaceChar_def isRadixDigit_def digitValue_def mathInt_def

text \<open>
  C3. The number field has \<open>type = 'number'\<close>, so the value the handler reads is the
  empty text unless a number was typed. When \<open>parseInt\<close> of the value fails or gives a
  number outside 3 to 7, the handler displays the invalid-input message and does
  nothing else: the result does not depend on \<open>onStart\<close>, which is not called. A value
  with no decimal digit in it (the empty text, any text of letters) is such a value.
  Otherwise the handler clears the status line and then calls \<open>onStart\<close> once, with the
  parsed number.
\<close>

theorem goBtn_onclick_validates:
  "(parseInt (input_value s) = None \<or>
      (\<exists>n. parseInt (input_value s) = Some n \<and> (n < 3 \<or> 7 < n))
      \<longrightarrow> goBtn_onclick M onStart s
            = s\<lparr> messageDisplay := invalidInput M, statusLog := statusLog s @ [invalidInput M] \<rparr>) \<and>
   ((\<forall>c \<in> set (input_value s). \<not> isDecimalDigit c)
      \<longrightarrow> goBtn_onclick M onStart s
            = s\<lparr> messageDisplay := invalidInput M, statusLog := statusLog s @ [invalidInput M] \<rparr>) \<and>
   (\<forall>n. parseInt (input_value s) = Some n \<and> 3 \<le> n \<and> n \<le> 7
      \<longrightarrow> goBtn_onclick M onStart s
            = onStart n (s\<lparr> messageDisplay := [], statusLog := statusLog s @ [[]] \<rparr>))"
  by (auto simp: goBtn_onclick_def displayStatus_def parseInt_no_digit split: option.splits)

theorem goBtn_onclick_validates_witness:
  "parseInt (input_value (typed ''abc'')) = None \<and>
   list_all (\<lambda>c. \<not> isDecimalDigit c) (input_value (typed ''abc'')) \<and>
   goBtn_onclick sampleMessages (startGame halves) (typed ''abc'')
     = (typed ''abc'')\<lparr> messageDisplay := ''Please enter a number between 3 and 7.'',
                         statusLog := [''Please enter a number between 3 and 7.''] \<rparr> \<and>
   parseInt (input_value (typed ''8'')) = Some 8 \<and>
   goBtn_onclick sampleMessages (startGame halves) (typed ''8'')
     = (typed ''8'')\<lparr> messageDisplay := ''Please enter a number between 3 and 7.'',
                       statusLog := [''Please enter a number between 3 and 7.''] \<rparr> \<and>
   parseInt (input_value (typed ''5'')) = Some 5 \<and>
   goBtn_onclick sampleMessages (startGame halves) (typed ''5'')
     = startGame halves 5 ((typed ''5'')\<lparr> messageDisplay := [], statusLog := [[]] \<rparr>)"
proof -
  have p: "parseInt (input_value (typed ''abc'')) = None"
    "parseInt (input_value (typed ''8'')) = Some 8"
    "parseInt (input_value (typed ''5'')) = Some 5"
    by (simp_all add: typed_def parse_defs)
  have nd: "\<forall>c \<in> set (input_value (typed ''abc'')). \<not> isDecimalDigit c"
    by (simp add: typed_def isDecimalDigit_def)
  have l: "statusLog (typed v) = []" for v
    by (simp add: typed_def GameEngine_new_def)
  note a = goBtn_onclick_validates [of "typed ''abc''" sampleMessages "startGame halves"]
  note b = goBtn_onclick_validates [of "typed ''8''" sampleMessages "startGame halves"]
  note c = goBtn_onclick_validates [of "typed ''5''" sampleMessages "startGame halves"]
  from a nd have "goBtn_onclick sampleMessages (startGame halves) (typed ''abc'')
     = (typed ''abc'')\<lparr> messageDisplay := ''Please enter a number between 3 and 7.'',
                         statusLog := [''Please enter a number between 3 and 7.''] \<rparr>"
    by (simp add: l sampleMessages_def)
  moreover from b p(2) have "goBtn_onclick sampleMessages (startGame halves) (typed ''8'')
     = (typed ''8'')\<lparr> messageDisplay := ''Please enter a number between 3 and 7.'',
                       statusLog := [''Please enter a number between 3 and 7.''] \<rparr>"
    by (simp add: l sampleMessages_def)
  moreover from c p(3) have "goBtn_onclick sampleMessages (startGame halves) (typed ''5'')
     = startGame halves 5 ((typed ''5'')\<lparr> messageDisplay := [], statusLog := [[]] \<rparr>)"
    by (simp add: l)
  moreover from nd have "list_all (\<lambda>c. \<not> isDecimalDigit c) (input_value (typed ''abc''))"
    by (simp add: list_all_iff)
  ultimately show ?thesis using p by simp
qed

subsection \<open>The scramble countdown\<close>



subsection \<open>Callbacks of an earlier round\<close>




subsection \<open>The expected number\<close>

text \<open>
  C7, as the script has it. \<open>startGame(n)\<close> sets \<open>expectedOrder\<close> to 1. In every state a
  round reaches by clicks and timers (callbacks left over from an earlier round
  included), \<open>expectedOrder\<close> is at least 1 and at most \<open>n + 1\<close>, and every further event
  leaves it as it is or adds exactly one. Once it is \<open>n + 1\<close> (the round is won) no
  sequence of events changes it. After a click that took the wrong-order branch (the
  round is lost) no sequence of clicks changes the state, as long as no timer callback
  runs in between; and in a round started while no callback was pending, no sequence
  of clicks and timer callbacks changes it.
\<close>

theorem expectedOrder_monotone_bounded:
  fixes M rand evs n s0
  defines "s \<equiv> runEvents M rand evs (startGame rand n s0)"
  assumes "0 \<le> n"
  shows "expectedOrder (startGame rand n s0) = 1 \<and>
     1 \<le> expectedOrder s \<and> expectedOrder s \<le> n + 1 \<and>
     (expectedOrder (step M rand ev s) = expectedOrder s \<or>
      expectedOrder (step M rand ev s) = expectedOrder s + 1) \<and>
     (expectedOrder s = n + 1 \<longrightarrow> expectedOrder (runEvents M rand evs' s) = n + 1) \<and>
     (\<not> isScrambling s \<and> i < length (buttons s) \<and> onclick (buttons s ! i) \<noteq> None \<and>
      order (buttons s ! i) \<noteq> expectedOrder s \<longrightarrow>
        fold (click M) cs (click M i s) = click M i s \<and>
        expectedOrder (fold (click M) cs (click M i s)) = expectedOrder s) \<and>
     (timers s0 = [] \<and>
      \<not> isScrambling s \<and> i < length (buttons s) \<and> onclick (buttons s ! i) \<noteq> None \<and>
      order (buttons s ! i) \<noteq> expectedOrder s \<longrightarrow>
        runEvents M rand evs' (click M i s) = click M i s \<and>
        expectedOrder (runEvents M rand evs' (click M i s)) = expectedOrder s)"
proof -
  have inv: "roundInvariant s"
    unfolding s_def by (intro roundInvariant_runEvents roundInvariant_startGame)
  have len: "int (length (buttons s)) = n"
    unfolding s_def using assms(2) by (simp add: startGame_length)
  have b: "1 \<le> expectedOrder s" "expectedOrder s \<le> n + 1"
    using inv len by (simp_all add: roundInvariant_def)
  have st: "expectedOrder (step M rand ev s) = expectedOrder s \<or>
      expectedOrder (step M rand ev s) = expectedOrder s + 1"
    using step_expectedOrder [of s M rand ev] inv by (auto simp: roundInvariant_def)
  have won: "expectedOrder (runEvents M rand evs' s) = n + 1" if "expectedOrder s = n + 1"
  proof -
    have "roundInvariant (runEvents M rand evs' s)"
      using inv by (rule roundInvariant_runEvents)
    then have "expectedOrder (runEvents M rand evs' s) \<le> n + 1"
      using len by (simp add: roundInvariant_def)
    moreover have "expectedOrder s \<le> expectedOrder (runEvents M rand evs' s)"
      using inv by (rule runEvents_mono)
    ultimately show ?thesis using that by simp
  qed
  have lost: "fold (click M) cs (click M i s) = click M i s \<and>
        expectedOrder (fold (click M) cs (click M i s)) = expectedOrder s"
    if h: "\<not> isScrambling s \<and> i < length (buttons s) \<and> onclick (buttons s ! i) \<noteq> None \<and>
      order (buttons s ! i) \<noteq> expectedOrder s"
  proof -
    from h have "onclick (buttons s ! i) = Some HandleButtonClick"
      by (cases "onclick (buttons s ! i)") (auto intro: handler.exhaust)
    with h have c: "click M i s = handleButtonClick M i s" by (simp add: click_enabled)
    have "allDisabled (click M i s)"
      unfolding c using h by (intro allDisabled_wrong) simp_all
    then have "fold (click M) cs (click M i s) = click M i s"
      by (rule allDisabled_clicks)
    moreover have "expectedOrder (click M i s) = expectedOrder s"
      unfolding c using h by (simp add: handleButtonClick_wrong)
    ultimately show ?thesis by simp
  qed
  have quiet: "runEvents M rand evs' (click M i s) = click M i s \<and>
        expectedOrder (runEvents M rand evs' (click M i s)) = expectedOrder s"
    if h: "timers s0 = [] \<and>
      \<not> isScrambling s \<and> i < length (buttons s) \<and> onclick (buttons s ! i) \<noteq> None \<and>
      order (buttons s ! i) \<noteq> expectedOrder s"
  proof -
    from h have "ownChainOnly s"
      unfolding s_def by (intro ownChainOnly_round) simp
    with h have t: "timers s = []"
      by (intro ownChainOnly_armed [of s i]) simp_all
    from h t have "runEvents M rand evs' (click M i s) = click M i s"
      by (intro wrong_click_quiet) simp_all
    moreover have "expectedOrder (click M i s) = expectedOrder s"
    proof -
      from h have "onclick (buttons s ! i) = Some HandleButtonClick"
        by (cases "onclick (buttons s ! i)") (auto intro: handler.exhaust)
      with h have "click M i s = handleButtonClick M i s" by (simp add: click_enabled)
      with h show ?thesis by (simp add: handleButtonClick_wrong)
    qed
    ultimately show ?thesis by simp
  qed
  have "expectedOrder (startGame rand n s0) = 1" by simp
  with b st won lost quiet show ?thesis by blast
qed

theorem expectedOrder_monotone_bounded_witness:
  "runEvents sampleMessages halves [TimerFires, TimerFires, TimerFires, TimerFires]
     (startGame halves 3 (GameEngine_new 800 600)) = round3 \<and>
   expectedOrder round3 = 1 \<and>
   \<not> isScrambling round3 \<and> 1 < length (buttons round3) \<and> onclick (buttons round3 ! 1) \<noteq> None \<and>
   order (buttons round3 ! 1) \<noteq> expectedOrder round3 \<and>
   expectedOrder (fold (click sampleMessages) [0, 1, 2] (click sampleMessages 1 round3)) = 1 \<and>
   timers (GameEngine_new 800 600) = [] \<and>
   expectedOrder (runEvents sampleMessages halves [TimerFires, Click 0, TimerFires, Click 2]
      (click sampleMessages 1 round3)) = 1 \<and>
   expectedOrder (runEvents sampleMessages halves
      [TimerFires, TimerFires, TimerFires, TimerFires, Click 0, Click 1, Click 2]
      (startGame halves 3 (GameEngine_new 800 600))) = 3 + 1 \<and>
   expectedOrder (runEvents sampleMessages halves [Click 2, Click 0, TimerFires]
     (runEvents sampleMessages halves
        [TimerFires, TimerFires, TimerFires, TimerFires, Click 0, Click 1, Click 2]
        (startGame halves 3 (GameEngine_new 800 600)))) = 3 + 1"
proof -
  have n: "(0::int) \<le> 3" by simp
  have r: "runEvents sampleMessages halves [TimerFires, TimerFires, TimerFires, TimerFires]
     (startGame halves 3 (GameEngine_new 800 600)) = round3"
    by (simp add: runEvents_def round3_def)
  have w: "runEvents sampleMessages halves
      [TimerFires, TimerFires, TimerFires, TimerFires, Click 0, Click 1, Click 2]
      (startGame halves 3 (GameEngine_new 800 600)) =
      click sampleMessages 2 (click sampleMessages 1 (click sampleMessages 0 round3))"
    by (simp add: runEvents_def round3_def)
  have e: "expectedOrder (click sampleMessages 2 (click sampleMessages 1 (click sampleMessages 0 round3))) = 3 + 1"
    by (simp add: round3_value eval_defs)
  have l: "\<not> isScrambling round3 \<and> 1 < length (buttons round3) \<and> onclick (buttons round3 ! 1) \<noteq> None \<and>
      order (buttons round3 ! 1) \<noteq> expectedOrder round3" and e1: "expectedOrder round3 = 1"
    by (simp_all add: round3_value)
  note A = expectedOrder_monotone_bounded [OF n, of halves "GameEngine_new 800 600" sampleMessages
      "[TimerFires, TimerFires, TimerFires, TimerFires]" "Click 0" "[]" 1 "[0, 1, 2]"]
  note B = expectedOrder_monotone_bounded [OF n, of halves "GameEngine_new 800 600" sampleMessages
      "[TimerFires, TimerFires, TimerFires, TimerFires, Click 0, Click 1, Click 2]" "Click 0"
      "[Click 2, Click 0, TimerFires]" 0 "[]"]
  note C = expectedOrder_monotone_bounded [OF n, of halves "GameEngine_new 800 600" sampleMessages
      "[TimerFires, TimerFires, TimerFires, TimerFires]" "Click 0"
      "[TimerFires, Click 0, TimerFires, Click 2]" 1 "[]"]
  have t0: "timers (GameEngine_new 800 600) = []"
    by (simp add: GameEngine_new_def)
  from C [unfolded r] l t0
  have "expectedOrder (runEvents sampleMessages halves [TimerFires, Click 0, TimerFires, Click 2]
      (click sampleMessages 1 round3)) = expectedOrder round3"
    by blast
  then have q: "expectedOrder (runEvents sampleMessages halves [TimerFires, Click 0, TimerFires, Click 2]
      (click sampleMessages 1 round3)) = 1"
    by (simp only: e1)
  from A [unfolded r] l
  have "expectedOrder (fold (click sampleMessages) [0, 1, 2] (click sampleMessages 1 round3)) =
      expectedOrder round3"
    by blast
  then have "expectedOrder (fold (click sampleMessages) [0, 1, 2] (click sampleMessages 1 round3)) = 1"
    by (simp only: e1)
  moreover from B e have "expectedOrder (runEvents sampleMessages halves [Click 2, Click 0, TimerFires]
     (runEvents sampleMessages halves
        [TimerFires, TimerFires, TimerFires, TimerFires, Click 0, Click 1, Click 2]
        (startGame halves 3 (GameEngine_new 800 600)))) = 3 + 1"
    unfolding w by blast
  ultimately show ?thesis using r w e l e1 t0 q by simp
qed

text \<open>
  A lost round can take up again when a callback is still pending. \<open>staleLater\<close> is the
  round of four five timers after its start, armed by the chain of the earlier round
  while its own chain is pending. A click on the button numbered 2 (index 1) is out of
  turn: the wrong-order message is displayed and \<open>expectedOrder\<close> is 1. Three timers
  later the round's own \<open>prepareForUser\<close> has armed the buttons again, and a click on
  the button numbered 1 (index 0) raises \<open>expectedOrder\<close> to 2.
\<close>

theorem expectedOrder_after_loss_counterexample:
  "staleLater = runEvents sampleMessages halves
     [TimerFires, TimerFires, TimerFires, TimerFires, TimerFires] (startGame halves 4 scrambling3) \<and>
   \<not> isScrambling staleLater \<and> 1 < length (buttons staleLater) \<and>
   onclick (buttons staleLater ! 1) \<noteq> None \<and>
   order (buttons staleLater ! 1) \<noteq> expectedOrder staleLater \<and>
   statusLog (click sampleMessages 1 staleLater) = [''Wrong order!''] \<and>
   expectedOrder (click sampleMessages 1 staleLater) = 1 \<and>
   expectedOrder (runEvents sampleMessages halves [TimerFires, TimerFires, TimerFires, Click 0]
     (click sampleMessages 1 staleLater)) = 2"
proof -
  have r: "staleLater = runEvents sampleMessages halves
     [TimerFires, TimerFires, TimerFires, TimerFires, TimerFires] (startGame halves 4 scrambling3)"
    by (simp add: runEvents_def staleLater_def staleTick_def staleStart_def)
  have s: "\<not> isScrambling staleLater \<and> 1 < length (buttons staleLater) \<and>
   onclick (buttons staleLater ! 1) \<noteq> None \<and>
   order (buttons staleLater ! 1) \<noteq> expectedOrder staleLater"
    by (simp add: staleLater_value)
  have l: "statusLog (click sampleMessages 1 staleLater) = [''Wrong order!''] \<and>
   expectedOrder (click sampleMessages 1 staleLater) = 1"
    unfolding lostStale_def [symmetric] by (simp add: lostStale_value)
  have "runEvents sampleMessages halves [TimerFires, TimerFires, TimerFires, Click 0]
     (click sampleMessages 1 staleLater) = click sampleMessages 0 lostRearmed"
    by (simp add: runEvents_def lostRearmed_def lostStale_def)
  moreover have "expectedOrder (click sampleMessages 0 lostRearmed) = 2"
    by (simp add: lostRearmed_value eval_defs)
  ultimately have e: "expectedOrder (runEvents sampleMessages halves [TimerFires, TimerFires, TimerFires, Click 0]
     (click sampleMessages 1 staleLater)) = 2"
    by (simp only:)
  from r s l e show ?thesis by blast
qed

end
